theory Spec2Isabelle
  imports Main
begin

section \<open>Values, parser objects and the outside world\<close>

text \<open>
  A shallow embedding of \<^verbatim>\<open>src/gbk_to_sqlite/core.py\<close>. Python values that travel
  from the parser into row tuples are \<open>pyval\<close>; a row tuple is a list of them, in the
  order of the column tuple it is inserted under.
\<close>

datatype pyval = PyNone | PyInt int | PyStr string

type_synonym row = "pyval list"

datatype py_error = IOError | ParseError | AttributeError | DatabaseError

definition digit_char :: "nat \<Rightarrow> char" where
  "digit_char n = ''0123456789'' ! n"

text \<open>The decimal numeral of a natural number, most significant digit first.\<close>

function decimal :: "nat \<Rightarrow> string" where
  "decimal n =
     (if 10 \<le> n then decimal (n div 10) @ [digit_char (n mod 10)]
      else [digit_char n])"
  by pat_completeness auto
termination
  by (relation "measure id") auto

declare decimal.simps [simp del]

definition py_str_int :: "int \<Rightarrow> string" where
  "py_str_int i =
     (if 0 \<le> i then decimal (nat i) else CHR ''-'' # decimal (nat (- i)))"

text \<open>Python's \<^verbatim>\<open>str(x)\<close>, which is also what an f-string prints for \<^verbatim>\<open>{x}\<close>.\<close>

fun py_str :: "pyval \<Rightarrow> string" where
  "py_str PyNone = ''None''"
| "py_str (PyInt i) = py_str_int i"
| "py_str (PyStr s) = s"

text \<open>Python's \<^verbatim>\<open>sep.join(xs)\<close> and \<^verbatim>\<open>s.endswith(suf)\<close>.\<close>

fun join :: "string \<Rightarrow> string list \<Rightarrow> string" where
  "join sep [] = []"
| "join sep [x] = x"
| "join sep (x # y # ys) = x @ sep @ join sep (y # ys)"

definition endswith :: "string \<Rightarrow> string \<Rightarrow> bool" where
  "endswith s suf =
     (length suf \<le> length s \<and> drop (length s - length suf) s = suf)"

text \<open>
  The objects of the parsing library. A location is duck-typed in the source: each of
  the attributes \<^verbatim>\<open>start\<close>, \<^verbatim>\<open>end\<close>, \<^verbatim>\<open>strand\<close> may be missing
  (\<^verbatim>\<open>hasattr\<close> is false, here \<open>None\<close>) or present with a value (which may itself be
  Python's \<^verbatim>\<open>None\<close>, here \<open>Some PyNone\<close>).
\<close>

record location =
  start_attr :: "pyval option"
  end_attr :: "pyval option"
  strand_attr :: "pyval option"

record qualifier =
  q_key :: pyval
  q_value :: pyval

record feature =
  location :: location
  qualifiers :: "qualifier list"

record gb_record =
  rec_name :: pyval
  rec_definition :: pyval
  rec_accession :: pyval
  rec_version :: pyval
  features :: "feature list"

text \<open>
  What iterating a parser yields: the records produced, in file order, and how the
  iteration ends (\<open>None\<close>: exhausted normally; \<open>Some e\<close>: the exception raised after the
  last record produced).
\<close>

type_synonym record_stream = "gb_record list \<times> py_error option"

record env =
  gzip_open :: "string \<Rightarrow> py_error + string"
  gb_io_iter_file :: "string \<Rightarrow> record_stream"
  gb_io_iter_path :: "string \<Rightarrow> record_stream"

text \<open>The database: the rows of each table in insertion order, the two identifier
  sequences, and the secondary indexes as (name, table, columns).\<close>

type_synonym index_def = "string \<times> string \<times> string list"

record database =
  tables :: "string \<Rightarrow> row list"
  genome_seq :: int
  record_seq :: int
  indexes :: "index_def list"

datatype sql_stmt = CreateIndex bool string string "string list"

text \<open>Every call that leaves the process, in the order made.\<close>

datatype effect =
    LogInfo string
  | OrmInsert string row
  | OpenInput string
  | Warn string
  | Executemany string "row list"
  | Commit
  | ExecuteSql sql_stmt

record world =
  db :: database
  effects :: "effect list"

definition emit :: "effect \<Rightarrow> world \<Rightarrow> world" where
  "emit e w = w\<lparr>effects := effects w @ [e]\<rparr>"

definition insert_rows :: "string \<Rightarrow> row list \<Rightarrow> world \<Rightarrow> world" where
  "insert_rows t rs w =
     w\<lparr>db := (db w)\<lparr>tables := (tables (db w))(t := tables (db w) t @ rs)\<rparr>\<rparr>"

definition logging_info :: "string \<Rightarrow> world \<Rightarrow> world" where
  "logging_info msg w = emit (LogInfo msg) w"

definition warnings_warn :: "string \<Rightarrow> world \<Rightarrow> world" where
  "warnings_warn msg w = emit (Warn msg) w"

section \<open>The model classes\<close>

record genome_obj =
  genome_id :: int
  genome_gbk_path :: string

record record_obj =
  ro_id :: int
  ro_genome :: int
  ro_name :: pyval
  ro_definition :: pyval
  ro_accession :: pyval
  ro_version :: pyval

text \<open>
  Modelled from the spec: \<^verbatim>\<open>Genome.create\<close> of \<^verbatim>\<open>models.py\<close>, which is not among
  the sources. The storage layer gives "auto-incrementing identifier assignment on
  single-row insert with immediate id retrieval"; a Genome row is (identifier, source
  file path).
\<close>

definition Genome_create :: "string \<Rightarrow> world \<Rightarrow> genome_obj \<times> world" where
  "Genome_create gbk_path w =
     (let i = genome_seq (db w) + 1;
          r = [PyInt i, PyStr gbk_path];
          w1 = w\<lparr>db := (db w)\<lparr>genome_seq := i\<rparr>\<rparr>
      in (\<lparr>genome_id = i, genome_gbk_path = gbk_path\<rparr>,
          emit (OrmInsert ''genome'' r) (insert_rows ''genome'' [r] w1)))"

text \<open>
  Modelled from the spec: \<^verbatim>\<open>Record.create\<close> of \<^verbatim>\<open>models.py\<close>, which is not among
  the sources. A Record row is (identifier, owning genome id, name, definition,
  accession, version), its identifier assigned as for a Genome.
\<close>

definition Record_create ::
  "genome_obj \<Rightarrow> pyval \<Rightarrow> pyval \<Rightarrow> pyval \<Rightarrow> pyval \<Rightarrow> world \<Rightarrow> record_obj \<times> world" where
  "Record_create genome nm dfn acc ver w =
     (let i = record_seq (db w) + 1;
          r = [PyInt i, PyInt (genome_id genome), nm, dfn, acc, ver];
          w1 = w\<lparr>db := (db w)\<lparr>record_seq := i\<rparr>\<rparr>
      in (\<lparr>ro_id = i, ro_genome = genome_id genome, ro_name = nm, ro_definition = dfn,
            ro_accession = acc, ro_version = ver\<rparr>,
          emit (OrmInsert ''record'' r) (insert_rows ''record'' [r] w1)))"

section \<open>Reading the input\<close>

definition iter_gb_records :: "env \<Rightarrow> string \<Rightarrow> record_stream" where
  "iter_gb_records e gbk_path =
     (if endswith gbk_path ''.gz'' then
        (case gzip_open e gbk_path of
           Inl err \<Rightarrow> ([], Some err)
         | Inr file_obj \<Rightarrow> gb_io_iter_file e file_obj)
      else gb_io_iter_path e gbk_path)"

section \<open>Bulk insertion\<close>

definition executemany :: "string \<Rightarrow> string \<Rightarrow> row list \<Rightarrow> world \<Rightarrow> world" where
  "executemany sql table_name vals w =
     emit (Executemany sql vals) (insert_rows table_name vals w)"

definition commit :: "world \<Rightarrow> world" where
  "commit w = emit Commit w"

definition insert_sql :: "string \<Rightarrow> string list \<Rightarrow> string" where
  "insert_sql table_name columns =
     (let placeholders = join '', '' (replicate (length columns) ''?'')
      in ''INSERT INTO '' @ table_name @ '' ('' @ join '', '' columns @
         '') VALUES ('' @ placeholders @ '')'')"

definition bulk_insert_tuples :: "row list \<Rightarrow> string \<Rightarrow> string list \<Rightarrow> world \<Rightarrow> world" where
  "bulk_insert_tuples vals table_name columns w =
     (if vals = [] then w
      else commit (executemany (insert_sql table_name columns) table_name vals w))"

section \<open>The conversion\<close>

definition feature_columns :: "string list" where
  "feature_columns =
     [''genome_id'', ''record_id'', ''feature_index'', ''location_start'',
      ''location_end'', ''location_strand'']"

definition qualifier_columns :: "string list" where
  "qualifier_columns = [''genome_id'', ''record_id'', ''feature_index'', ''key'', ''value'']"

text \<open>The local variables of \<^verbatim>\<open>convert_gbk_to_sqlite\<close> that its loops update,
  together with the world.\<close>

record locals =
  the_world :: world
  record_objs :: "record_obj list"
  feature_tuples :: "row list"
  qualifier_tuples :: "row list"

text \<open>Lines 68 to 82: the three location fields of a feature, or the AttributeError of
  reading \<^verbatim>\<open>start\<close> or \<^verbatim>\<open>end\<close> off a location that has a strand but not them.\<close>

definition location_fields ::
  "nat \<Rightarrow> record_obj \<Rightarrow> feature \<Rightarrow> world \<Rightarrow> (py_error \<times> world) + ((pyval \<times> pyval \<times> pyval) \<times> world)" where
  "location_fields idx record_obj ftr w =
     (case strand_attr (location ftr) of
        None \<Rightarrow>
          (let w1 = warnings_warn
                 (''Feature '' @ decimal idx @ '' of record '' @
                  py_str (ro_name record_obj) @ '' does not have strand attribute'') w;
               location_start =
                 (case start_attr (location ftr) of Some v \<Rightarrow> v | None \<Rightarrow> PyNone);
               location_end =
                 (case end_attr (location ftr) of Some v \<Rightarrow> v | None \<Rightarrow> PyNone);
               location_strand = PyNone
           in Inr ((location_start, location_end, location_strand), w1))
      | Some strand \<Rightarrow>
          (case start_attr (location ftr) of
             None \<Rightarrow> Inl (AttributeError, w)
           | Some location_start \<Rightarrow>
               (case end_attr (location ftr) of
                  None \<Rightarrow> Inl (AttributeError, w)
                | Some location_end \<Rightarrow>
                    Inr ((location_start, location_end,
                          (if strand \<noteq> PyNone then PyStr (py_str strand) else PyNone)), w))))"

text \<open>Lines 84 to 98: append a feature tuple, flush the feature buffer when full.\<close>

definition append_feature_tuple :: "int \<Rightarrow> row \<Rightarrow> locals \<Rightarrow> locals" where
  "append_feature_tuple batch_size r s =
     (let s1 = s\<lparr>feature_tuples := feature_tuples s @ [r]\<rparr>
      in if int (length (feature_tuples s1)) \<ge> batch_size
         then s1\<lparr>the_world :=
                   bulk_insert_tuples (feature_tuples s1) ''feature'' feature_columns (the_world s1),
                 feature_tuples := []\<rparr>
         else s1)"

text \<open>Lines 100 to 113: append a qualifier tuple, flush the qualifier buffer when full.\<close>

definition append_qualifier_tuple :: "int \<Rightarrow> row \<Rightarrow> locals \<Rightarrow> locals" where
  "append_qualifier_tuple batch_size r s =
     (let s1 = s\<lparr>qualifier_tuples := qualifier_tuples s @ [r]\<rparr>
      in if int (length (qualifier_tuples s1)) \<ge> batch_size
         then s1\<lparr>the_world :=
                   bulk_insert_tuples (qualifier_tuples s1) ''qualifier'' qualifier_columns
                     (the_world s1),
                 qualifier_tuples := []\<rparr>
         else s1)"

text \<open>The two tuple literals of lines 85 to 92 and 101 to 107.\<close>

definition feature_row :: "int \<Rightarrow> int \<Rightarrow> nat \<Rightarrow> pyval \<times> pyval \<times> pyval \<Rightarrow> row" where
  "feature_row gid rid idx loc =
     (case loc of (location_start, location_end, location_strand) \<Rightarrow>
        [PyInt gid, PyInt rid, PyInt (int idx), location_start, location_end, location_strand])"

definition qualifier_row :: "int \<Rightarrow> int \<Rightarrow> nat \<Rightarrow> qualifier \<Rightarrow> row" where
  "qualifier_row gid rid idx q = [PyInt gid, PyInt rid, PyInt (int idx), q_key q, q_value q]"

fun qualifier_loop ::
  "int \<Rightarrow> genome_obj \<Rightarrow> record_obj \<Rightarrow> nat \<Rightarrow> qualifier list \<Rightarrow> locals \<Rightarrow> locals" where
  "qualifier_loop batch_size genome record_obj idx [] s = s"
| "qualifier_loop batch_size genome record_obj idx (q # qs) s =
     qualifier_loop batch_size genome record_obj idx qs
       (append_qualifier_tuple batch_size
          (qualifier_row (genome_id genome) (ro_id record_obj) idx q) s)"

text \<open>The body of \<^verbatim>\<open>for idx, feature in enumerate(record.features)\<close>, with \<open>idx\<close> the
  counter of \<^verbatim>\<open>enumerate\<close>.\<close>

fun feature_loop ::
  "int \<Rightarrow> genome_obj \<Rightarrow> record_obj \<Rightarrow> nat \<Rightarrow> feature list \<Rightarrow> locals \<Rightarrow> (py_error \<times> world) + locals" where
  "feature_loop batch_size genome record_obj idx [] s = Inr s"
| "feature_loop batch_size genome record_obj idx (ftr # fs) s =
     (case location_fields idx record_obj ftr (the_world s) of
        Inl err \<Rightarrow> Inl err
      | Inr (loc, w1) \<Rightarrow>
          (let s1 = append_feature_tuple batch_size
                      (feature_row (genome_id genome) (ro_id record_obj) idx loc)
                      (s\<lparr>the_world := w1\<rparr>);
               s2 = qualifier_loop batch_size genome record_obj idx (qualifiers ftr) s1
           in feature_loop batch_size genome record_obj (Suc idx) fs s2))"

text \<open>The body of \<^verbatim>\<open>for record in iter_gb_records(gbk_path)\<close>.\<close>

fun record_loop ::
  "int \<Rightarrow> genome_obj \<Rightarrow> gb_record list \<Rightarrow> locals \<Rightarrow> (py_error \<times> world) + locals" where
  "record_loop batch_size genome [] s = Inr s"
| "record_loop batch_size genome (r # rs) s =
     (case Record_create genome (rec_name r) (rec_definition r) (rec_accession r)
             (rec_version r) (the_world s) of
        (record_obj, w1) \<Rightarrow>
          (let s1 = s\<lparr>the_world := w1, record_objs := record_objs s @ [record_obj]\<rparr>
           in case feature_loop batch_size genome record_obj 0 (features r) s1 of
                Inl err \<Rightarrow> Inl err
              | Inr s2 \<Rightarrow> record_loop batch_size genome rs s2))"

text \<open>Lines 115 to 120: what is left in the two buffers after the last record.\<close>

definition final_flush :: "locals \<Rightarrow> world" where
  "final_flush s =
     (let w1 = (if feature_tuples s \<noteq> []
                then bulk_insert_tuples (feature_tuples s) ''feature'' feature_columns (the_world s)
                else the_world s)
      in if qualifier_tuples s \<noteq> []
         then bulk_insert_tuples (qualifier_tuples s) ''qualifier'' qualifier_columns w1
         else w1)"

text \<open>The state in which the record loop starts: the log line, the Genome row, the
  empty buffers, and the input opened by the first step of the iteration.\<close>

definition start_locals :: "string \<Rightarrow> int \<Rightarrow> world \<Rightarrow> genome_obj \<times> locals" where
  "start_locals gbk_path batch_size w =
     (let w1 = logging_info
                 (''Converting '' @ gbk_path @ '' to SQLite database using batch size '' @
                  py_str_int batch_size) w
      in case Genome_create gbk_path w1 of
           (genome, w2) \<Rightarrow>
             (genome, \<lparr>the_world = emit (OpenInput gbk_path) w2, record_objs = [],
                       feature_tuples = [], qualifier_tuples = []\<rparr>))"

text \<open>The result is the exception that left the function, if any, and the world the
  function leaves behind.\<close>

definition convert_gbk_to_sqlite :: "env \<Rightarrow> string \<Rightarrow> int \<Rightarrow> world \<Rightarrow> py_error option \<times> world" where
  "convert_gbk_to_sqlite e gbk_path batch_size w =
     (case start_locals gbk_path batch_size w of
        (genome, s0) \<Rightarrow>
          (case iter_gb_records e gbk_path of
             (rs, ending) \<Rightarrow>
               (case record_loop batch_size genome rs s0 of
                  Inl (err, w1) \<Rightarrow> (Some err, w1)
                | Inr s1 \<Rightarrow>
                    (case ending of
                       Some err \<Rightarrow> (Some err, the_world s1)
                     | None \<Rightarrow> (None, final_flush s1)))))"

section \<open>Indexes\<close>

text \<open>
  The tables are declared in \<^verbatim>\<open>models.py\<close>, which is not among the sources, so the
  columns of each table are a parameter here: \<open>schema t\<close> lists the column names of
  table \<open>t\<close>.

  \<^verbatim>\<open>db.execute_sql\<close> on an index statement. The flag of \<open>CreateIndex\<close> is the
  \<^verbatim>\<open>IF NOT EXISTS\<close> clause: with it an index of that name is left alone, without it
  the engine refuses the statement. A new index on a column the table does not have is
  refused as well.
\<close>

type_synonym schema = "string \<Rightarrow> string list"

definition execute_sql :: "schema \<Rightarrow> sql_stmt \<Rightarrow> world \<Rightarrow> (py_error \<times> world) + world" where
  "execute_sql sc stmt w =
     (case stmt of
        CreateIndex if_not_exists nm tbl cols \<Rightarrow>
          (let w1 = emit (ExecuteSql stmt) w
           in if nm \<in> set (map fst (indexes (db w)))
              then (if if_not_exists then Inr w1 else Inl (DatabaseError, w1))
              else if list_all (\<lambda>c. c \<in> set (sc tbl)) cols
              then Inr (w1\<lparr>db := (db w)\<lparr>indexes := indexes (db w) @ [(nm, tbl, cols)]\<rparr>\<rparr>)
              else Inl (DatabaseError, w1)))"

definition index_statements :: "sql_stmt list" where
  "index_statements =
     [CreateIndex True ''idx_qualifier_feature'' ''qualifier'' [''feature''],
      CreateIndex True ''idx_qualifier_feature_key'' ''qualifier'' [''feature'', ''key''],
      CreateIndex True ''idx_feature_record'' ''feature'' [''record''],
      CreateIndex True ''idx_record_genome'' ''record'' [''genome'']]"

fun execute_all :: "schema \<Rightarrow> sql_stmt list \<Rightarrow> world \<Rightarrow> (py_error \<times> world) + world" where
  "execute_all sc [] w = Inr w"
| "execute_all sc (stmt # stmts) w =
     (case execute_sql sc stmt w of
        Inl err \<Rightarrow> Inl err
      | Inr w1 \<Rightarrow> execute_all sc stmts w1)"

text \<open>\<^verbatim>\<open>with db:\<close> commits when its body ends normally and rolls the database back to
  where the body started when it raises.\<close>

definition create_indexes :: "schema \<Rightarrow> world \<Rightarrow> py_error option \<times> world" where
  "create_indexes sc w =
     (case execute_all sc index_statements w of
        Inl (err, w1) \<Rightarrow> (Some err, w1\<lparr>db := db w\<rparr>)
      | Inr w1 \<Rightarrow> (None, commit w1))"

section \<open>Notions used to state the properties\<close>

subsection \<open>Inputs the parser delivers\<close>

text \<open>
  The parsing library is not among the sources. The locations it delivers have one of
  two shapes: with start, end and strand, or, for a composite form, without strand and
  then with start and end each present or not. The source relies on this when it reads
  \<^verbatim>\<open>start\<close> and \<^verbatim>\<open>end\<close> off a location that has a strand (lines 78 and
  79). A location is well formed when it has one of the two shapes, a record when all
  its locations are; an input parses successfully when its records are well formed and
  the iteration ends normally.
\<close>

definition wf_location :: "location \<Rightarrow> bool" where
  "wf_location l = (strand_attr l = None \<or> (start_attr l \<noteq> None \<and> end_attr l \<noteq> None))"

definition wf_record :: "gb_record \<Rightarrow> bool" where
  "wf_record r = list_all (\<lambda>ftr. wf_location (location ftr)) (features r)"

definition well_formed_input :: "env \<Rightarrow> string \<Rightarrow> bool" where
  "well_formed_input e gbk_path =
     (case iter_gb_records e gbk_path of (rs, ending) \<Rightarrow> ending = None \<and> list_all wf_record rs)"

subsection \<open>The rows of an input, without any buffering\<close>

text \<open>
  What a record list contributes to each table when every row is written the moment it
  is produced: the reference against which the buffered conversion is compared.
  \<open>sq\<close> is the last record identifier handed out before the first record.
\<close>

definition loc_triple :: "location \<Rightarrow> pyval \<times> pyval \<times> pyval" where
  "loc_triple l =
     (case start_attr l of Some v \<Rightarrow> v | None \<Rightarrow> PyNone,
      case end_attr l of Some v \<Rightarrow> v | None \<Rightarrow> PyNone,
      case strand_attr l of
        None \<Rightarrow> PyNone
      | Some strand \<Rightarrow> if strand \<noteq> PyNone then PyStr (py_str strand) else PyNone)"

fun feature_rows :: "int \<Rightarrow> int \<Rightarrow> nat \<Rightarrow> feature list \<Rightarrow> row list" where
  "feature_rows gid rid idx [] = []"
| "feature_rows gid rid idx (ftr # fs) =
     feature_row gid rid idx (loc_triple (location ftr)) # feature_rows gid rid (Suc idx) fs"

fun qualifier_rows :: "int \<Rightarrow> int \<Rightarrow> nat \<Rightarrow> feature list \<Rightarrow> row list" where
  "qualifier_rows gid rid idx [] = []"
| "qualifier_rows gid rid idx (ftr # fs) =
     map (qualifier_row gid rid idx) (qualifiers ftr) @ qualifier_rows gid rid (Suc idx) fs"

fun all_feature_rows :: "int \<Rightarrow> int \<Rightarrow> gb_record list \<Rightarrow> row list" where
  "all_feature_rows gid sq [] = []"
| "all_feature_rows gid sq (r # rs) =
     feature_rows gid (sq + 1) 0 (features r) @ all_feature_rows gid (sq + 1) rs"

fun all_qualifier_rows :: "int \<Rightarrow> int \<Rightarrow> gb_record list \<Rightarrow> row list" where
  "all_qualifier_rows gid sq [] = []"
| "all_qualifier_rows gid sq (r # rs) =
     qualifier_rows gid (sq + 1) 0 (features r) @ all_qualifier_rows gid (sq + 1) rs"

fun record_rows :: "int \<Rightarrow> int \<Rightarrow> gb_record list \<Rightarrow> row list" where
  "record_rows gid sq [] = []"
| "record_rows gid sq (r # rs) =
     [PyInt (sq + 1), PyInt gid, rec_name r, rec_definition r, rec_accession r, rec_version r]
       # record_rows gid (sq + 1) rs"

definition flat_db :: "env \<Rightarrow> string \<Rightarrow> database \<Rightarrow> database" where
  "flat_db e gbk_path d =
     (let gid = genome_seq d + 1;
          rs = fst (iter_gb_records e gbk_path);
          sq = record_seq d
      in d\<lparr>tables := (tables d)
             (''genome'' := tables d ''genome'' @ [[PyInt gid, PyStr gbk_path]],
              ''record'' := tables d ''record'' @ record_rows gid sq rs,
              ''feature'' := tables d ''feature'' @ all_feature_rows gid sq rs,
              ''qualifier'' := tables d ''qualifier'' @ all_qualifier_rows gid sq rs),
           genome_seq := gid,
           record_seq := sq + int (length rs)\<rparr>)"

subsection \<open>Views of the loop state\<close>

text \<open>The feature and qualifier rows written or waiting to be written, and the
  database with those two tables left out.\<close>

definition fv :: "locals \<Rightarrow> row list" where
  "fv s = tables (db (the_world s)) ''feature'' @ feature_tuples s"

definition qv :: "locals \<Rightarrow> row list" where
  "qv s = tables (db (the_world s)) ''qualifier'' @ qualifier_tuples s"

definition rest :: "locals \<Rightarrow> database" where
  "rest s = (db (the_world s))\<lparr>tables := (tables (db (the_world s)))(''feature'' := [], ''qualifier'' := [])\<rparr>"

definition record_add :: "int \<Rightarrow> gb_record \<Rightarrow> database \<Rightarrow> database" where
  "record_add gid r d =
     d\<lparr>tables := (tables d)(''record'' := tables d ''record'' @
          [[PyInt (record_seq d + 1), PyInt gid, rec_name r, rec_definition r,
            rec_accession r, rec_version r]]),
       record_seq := record_seq d + 1\<rparr>"

fun ref_records :: "int \<Rightarrow> gb_record list \<Rightarrow> database \<Rightarrow> database" where
  "ref_records gid [] d = d"
| "ref_records gid (r # rs) d = ref_records gid rs (record_add gid r d)"

definition result_world :: "(py_error \<times> world) + locals \<Rightarrow> world" where
  "result_world r = (case r of Inl (err, w) \<Rightarrow> w | Inr s \<Rightarrow> the_world s)"

text \<open>The bound on the buffers, and on the row count of every bulk insert among the
  effects from position \<open>n\<close> on.\<close>

fun call_ok :: "int \<Rightarrow> effect \<Rightarrow> bool" where
  "call_ok b (Executemany sql vals) = (vals \<noteq> [] \<and> int (length vals) \<le> b)"
| "call_ok b _ = True"

definition calls_ok :: "nat \<Rightarrow> int \<Rightarrow> world \<Rightarrow> bool" where
  "calls_ok n b w = list_all (call_ok b) (drop n (effects w))"

definition bounded :: "int \<Rightarrow> locals \<Rightarrow> bool" where
  "bounded b s =
     (int (length (feature_tuples s)) < b \<and> int (length (qualifier_tuples s)) < b)"

definition result_bounded :: "int \<Rightarrow> (py_error \<times> world) + locals \<Rightarrow> bool" where
  "result_bounded b r = (case r of Inl err \<Rightarrow> True | Inr s \<Rightarrow> bounded b s)"

subsection \<open>A small input\<close>

text \<open>
  A file of two records: A with three features, of which the first has two qualifiers
  and the second a location without strand or end, and B with none.
\<close>

definition empty_world :: world where
  "empty_world =
     \<lparr>db = \<lparr>tables = (\<lambda>t. []), genome_seq = 0, record_seq = 0, indexes = []\<rparr>,
      effects = []\<rparr>"

definition feature_A0 :: feature where
  "feature_A0 =
     \<lparr>location = \<lparr>start_attr = Some (PyInt 1), end_attr = Some (PyInt 9),
                   strand_attr = Some (PyStr ''+'')\<rparr>,
      qualifiers = [\<lparr>q_key = PyStr ''gene'', q_value = PyStr ''abc''\<rparr>,
                    \<lparr>q_key = PyStr ''note'', q_value = PyNone\<rparr>]\<rparr>"

definition feature_A1 :: feature where
  "feature_A1 =
     \<lparr>location = \<lparr>start_attr = Some (PyInt 3), end_attr = None, strand_attr = None\<rparr>,
      qualifiers = []\<rparr>"

definition feature_A2 :: feature where
  "feature_A2 =
     \<lparr>location = \<lparr>start_attr = Some (PyInt 4), end_attr = Some (PyInt 7),
                   strand_attr = Some PyNone\<rparr>,
      qualifiers = []\<rparr>"

definition record_A :: gb_record where
  "record_A =
     \<lparr>rec_name = PyStr ''A'', rec_definition = PyNone, rec_accession = PyStr ''ACC1'',
      rec_version = PyNone, features = [feature_A0, feature_A1, feature_A2]\<rparr>"

definition record_B :: gb_record where
  "record_B =
     \<lparr>rec_name = PyStr ''B'', rec_definition = PyNone, rec_accession = PyStr ''ACC2'',
      rec_version = PyNone, features = []\<rparr>"

text \<open>An environment whose plain-text parser delivers the given stream for every
  path, and in which no compressed file can be opened.\<close>

definition env_of :: "record_stream \<Rightarrow> env" where
  "env_of stream =
     \<lparr>gzip_open = (\<lambda>p. Inl IOError),
      gb_io_iter_file = (\<lambda>t. ([], None)),
      gb_io_iter_path = (\<lambda>p. stream)\<rparr>"

definition example_env :: env where
  "example_env = env_of ([record_A, record_B], None)"

text \<open>What the rest of a run depends on: the database and the two buffers, without the
  effects made so far.\<close>

definition core :: "locals \<Rightarrow> database \<times> row list \<times> row list" where
  "core s = (db (the_world s), feature_tuples s, qualifier_tuples s)"

definition result_core ::
  "(py_error \<times> world) + locals \<Rightarrow> (py_error \<times> database) + (database \<times> row list \<times> row list)" where
  "result_core r = (case r of Inl (err, w) \<Rightarrow> Inl (err, db w) | Inr s \<Rightarrow> Inr (core s))"

subsection \<open>Indexes by name\<close>

text \<open>The index statements on the database alone, and the schemas that have every
  column the four statements index.\<close>

definition index_names :: "database \<Rightarrow> string list" where
  "index_names d = map fst (indexes d)"

definition exec_db :: "schema \<Rightarrow> sql_stmt \<Rightarrow> database \<Rightarrow> py_error + database" where
  "exec_db sc stmt d =
     (case stmt of
        CreateIndex if_not_exists nm tbl cols \<Rightarrow>
          (if nm \<in> set (index_names d)
           then (if if_not_exists then Inr d else Inl DatabaseError)
           else if list_all (\<lambda>c. c \<in> set (sc tbl)) cols
           then Inr (d\<lparr>indexes := indexes d @ [(nm, tbl, cols)]\<rparr>)
           else Inl DatabaseError))"

fun exec_all_db :: "schema \<Rightarrow> sql_stmt list \<Rightarrow> database \<Rightarrow> py_error + database" where
  "exec_all_db sc [] d = Inr d"
| "exec_all_db sc (stmt # stmts) d =
     (case exec_db sc stmt d of
        Inl err \<Rightarrow> Inl err
      | Inr d1 \<Rightarrow> exec_all_db sc stmts d1)"

fun stmt_name :: "sql_stmt \<Rightarrow> string" where
  "stmt_name (CreateIndex if_not_exists nm tbl cols) = nm"

fun stmt_guarded :: "sql_stmt \<Rightarrow> bool" where
  "stmt_guarded (CreateIndex if_not_exists nm tbl cols) = if_not_exists"

fun stmt_columns_exist :: "schema \<Rightarrow> sql_stmt \<Rightarrow> bool" where
  "stmt_columns_exist sc (CreateIndex if_not_exists nm tbl cols) =
     list_all (\<lambda>c. c \<in> set (sc tbl)) cols"

definition indexed_columns_exist :: "schema \<Rightarrow> bool" where
  "indexed_columns_exist sc = list_all (stmt_columns_exist sc) index_statements"

text \<open>The schema laid out as the column tuples of the two bulk inserts (lines 47 to
  55): the columns the feature and qualifier tables are written through.\<close>

definition tuple_schema :: schema where
  "tuple_schema t =
     (if t = ''qualifier'' then qualifier_columns
      else if t = ''feature'' then feature_columns
      else [])"

text \<open>A loop state with one feature row waiting and nothing else.\<close>

definition one_waiting :: locals where
  "one_waiting =
     \<lparr>the_world = empty_world, record_objs = [],
      feature_tuples = [[PyInt 1, PyInt 1, PyInt 0, PyInt 1, PyInt 9, PyStr ''+'']],
      qualifier_tuples = []\<rparr>"

section \<open>Lemmas\<close>

lemma emit_simps [simp]:
  "db (emit e w) = db w" "effects (emit e w) = effects w @ [e]"
  by (simp_all add: emit_def)

lemma insert_rows_simps [simp]:
  "effects (insert_rows t rs w) = effects w"
  "tables (db (insert_rows t rs w)) = (tables (db w))(t := tables (db w) t @ rs)"
  "genome_seq (db (insert_rows t rs w)) = genome_seq (db w)"
  "record_seq (db (insert_rows t rs w)) = record_seq (db w)"
  "indexes (db (insert_rows t rs w)) = indexes (db w)"
  by (simp_all add: insert_rows_def)

lemma bulk_insert_db:
  "db (bulk_insert_tuples vals t cols w) = db (insert_rows t vals w)"
  by (simp add: bulk_insert_tuples_def commit_def executemany_def insert_rows_def)

lemma bulk_insert_effects:
  "effects (bulk_insert_tuples vals t cols w) =
     effects w @ (if vals = [] then [] else [Executemany (insert_sql t cols) vals, Commit])"
  by (simp add: bulk_insert_tuples_def commit_def executemany_def)


lemma append_feature_tuple_view:
  "fv (append_feature_tuple b r s) = fv s @ [r]"
  "qv (append_feature_tuple b r s) = qv s"
  "rest (append_feature_tuple b r s) = rest s"
  by (simp_all add: append_feature_tuple_def Let_def fv_def qv_def rest_def bulk_insert_db)

lemma append_qualifier_tuple_view:
  "fv (append_qualifier_tuple b r s) = fv s"
  "qv (append_qualifier_tuple b r s) = qv s @ [r]"
  "rest (append_qualifier_tuple b r s) = rest s"
  by (simp_all add: append_qualifier_tuple_def Let_def fv_def qv_def rest_def bulk_insert_db)

lemma qualifier_loop_view:
  "fv (qualifier_loop b g ro idx qs s) = fv s"
  "qv (qualifier_loop b g ro idx qs s) = qv s @ map (qualifier_row (genome_id g) (ro_id ro) idx) qs"
  "rest (qualifier_loop b g ro idx qs s) = rest s"
  by (induction qs arbitrary: s; simp add: append_qualifier_tuple_view)+

lemma location_fields_wf:
  assumes "wf_location (location ftr)"
  shows "\<exists>w1. location_fields idx ro ftr w = Inr (loc_triple (location ftr), w1) \<and> db w1 = db w"
  using assms
  by (auto simp add: location_fields_def wf_location_def loc_triple_def warnings_warn_def Let_def
      split: option.splits)

lemma view_world_cong:
  "db w1 = db (the_world s) \<Longrightarrow> fv (s\<lparr>the_world := w1\<rparr>) = fv s"
  "db w1 = db (the_world s) \<Longrightarrow> qv (s\<lparr>the_world := w1\<rparr>) = qv s"
  "db w1 = db (the_world s) \<Longrightarrow> rest (s\<lparr>the_world := w1\<rparr>) = rest s"
  by (simp_all add: fv_def qv_def rest_def)

lemma feature_loop_view:
  assumes "list_all (\<lambda>ftr. wf_location (location ftr)) fs"
  shows "\<exists>s'. feature_loop b g ro idx fs s = Inr s'
           \<and> fv s' = fv s @ feature_rows (genome_id g) (ro_id ro) idx fs
           \<and> qv s' = qv s @ qualifier_rows (genome_id g) (ro_id ro) idx fs
           \<and> rest s' = rest s"
  using assms
proof (induction fs arbitrary: idx s)
  case Nil
  then show ?case by simp
next
  case (Cons ftr fs)
  from Cons.prems have "wf_location (location ftr)" by simp
  from location_fields_wf [OF this, of idx ro "the_world s"] obtain w1 where
    lf: "location_fields idx ro ftr (the_world s) = Inr (loc_triple (location ftr), w1)"
    and dbw: "db w1 = db (the_world s)"
    by blast
  let ?s2 = "qualifier_loop b g ro idx (qualifiers ftr)
               (append_feature_tuple b
                  (feature_row (genome_id g) (ro_id ro) idx (loc_triple (location ftr)))
                  (s\<lparr>the_world := w1\<rparr>))"
  from Cons.prems have rest_ok: "list_all (\<lambda>ftr. wf_location (location ftr)) fs" by simp
  from Cons.IH [OF rest_ok, of "Suc idx" ?s2] obtain s' where
    "feature_loop b g ro (Suc idx) fs ?s2 = Inr s'"
    "fv s' = fv ?s2 @ feature_rows (genome_id g) (ro_id ro) (Suc idx) fs"
    "qv s' = qv ?s2 @ qualifier_rows (genome_id g) (ro_id ro) (Suc idx) fs"
    "rest s' = rest ?s2"
    by blast
  then show ?case
    using lf dbw
    by (simp add: Let_def qualifier_loop_view append_feature_tuple_view view_world_cong)
qed

lemma record_seq_rest [simp]: "record_seq (rest s) = record_seq (db (the_world s))"
  by (simp add: rest_def)

lemma Record_create_view:
  assumes "Record_create g nm dfn acc ver (the_world s) = (ro, w1)"
    and "nm = rec_name r" "dfn = rec_definition r" "acc = rec_accession r" "ver = rec_version r"
  shows "ro_id ro = record_seq (db (the_world s)) + 1"
    and "fv (s\<lparr>the_world := w1, record_objs := xs\<rparr>) = fv s"
    and "qv (s\<lparr>the_world := w1, record_objs := xs\<rparr>) = qv s"
    and "rest (s\<lparr>the_world := w1, record_objs := xs\<rparr>) = record_add (genome_id g) r (rest s)"
  using assms
  by (auto simp add: Record_create_def Let_def fv_def qv_def rest_def record_add_def
      fun_upd_twist)

lemma record_seq_record_add [simp]: "record_seq (record_add gid r d) = record_seq d + 1"
  by (simp add: record_add_def)

lemma record_loop_view:
  assumes "list_all wf_record rs"
  shows "\<exists>s'. record_loop b g rs s = Inr s'
           \<and> fv s' = fv s @ all_feature_rows (genome_id g) (record_seq (db (the_world s))) rs
           \<and> qv s' = qv s @ all_qualifier_rows (genome_id g) (record_seq (db (the_world s))) rs
           \<and> rest s' = ref_records (genome_id g) rs (rest s)"
  using assms
proof (induction rs arbitrary: s)
  case Nil
  then show ?case by simp
next
  case (Cons r rs)
  obtain ro w1 where rc:
    "Record_create g (rec_name r) (rec_definition r) (rec_accession r) (rec_version r)
       (the_world s) = (ro, w1)"
    by (cases "Record_create g (rec_name r) (rec_definition r) (rec_accession r) (rec_version r)
       (the_world s)") blast
  let ?s1 = "s\<lparr>the_world := w1, record_objs := record_objs s @ [ro]\<rparr>"
  note v1 = Record_create_view [OF rc refl refl refl refl]
  from Cons.prems have "list_all (\<lambda>ftr. wf_location (location ftr)) (features r)"
    by (simp add: wf_record_def)
  from feature_loop_view [OF this, of b g ro 0 ?s1] obtain s2 where
    fl: "feature_loop b g ro 0 (features r) ?s1 = Inr s2"
    and f2: "fv s2 = fv ?s1 @ feature_rows (genome_id g) (ro_id ro) 0 (features r)"
    and q2: "qv s2 = qv ?s1 @ qualifier_rows (genome_id g) (ro_id ro) 0 (features r)"
    and r2: "rest s2 = rest ?s1"
    by blast
  from r2 v1 have sq2: "record_seq (db (the_world s2)) = record_seq (db (the_world s)) + 1"
    by (metis record_seq_rest record_seq_record_add)
  from Cons.prems have "list_all wf_record rs" by simp
  from Cons.IH [OF this, of s2] obtain s' where
    "record_loop b g rs s2 = Inr s'"
    "fv s' = fv s2 @ all_feature_rows (genome_id g) (record_seq (db (the_world s2))) rs"
    "qv s' = qv s2 @ all_qualifier_rows (genome_id g) (record_seq (db (the_world s2))) rs"
    "rest s' = ref_records (genome_id g) rs (rest s2)"
    by blast
  then show ?case
    using rc fl f2 q2 r2 sq2 v1 by simp
qed

lemma ref_records_explicit:
  "ref_records gid rs d =
     d\<lparr>tables := (tables d)(''record'' := tables d ''record'' @ record_rows gid (record_seq d) rs),
       record_seq := record_seq d + int (length rs)\<rparr>"
  by (induction rs arbitrary: d) (simp_all add: record_add_def)

lemma final_flush_db:
  "db (final_flush s) = (rest s)\<lparr>tables := (tables (rest s))(''feature'' := fv s, ''qualifier'' := qv s)\<rparr>"
  by (auto simp add: final_flush_def Let_def bulk_insert_db rest_def fv_def qv_def insert_rows_def
      fun_upd_twist intro!: database.equality)

lemma start_locals_view:
  assumes "start_locals gbk_path b w = (g, s0)"
  shows "genome_id g = genome_seq (db w) + 1"
    and "fv s0 = tables (db w) ''feature''"
    and "qv s0 = tables (db w) ''qualifier''"
    and "record_seq (db (the_world s0)) = record_seq (db w)"
    and "rest s0 = (db w)\<lparr>tables := (tables (db w))
             (''genome'' := tables (db w) ''genome'' @ [[PyInt (genome_seq (db w) + 1), PyStr gbk_path]],
              ''feature'' := [], ''qualifier'' := []),
           genome_seq := genome_seq (db w) + 1\<rparr>"
  using assms
  by (auto simp add: start_locals_def Genome_create_def logging_info_def Let_def fv_def qv_def
      rest_def)

lemma convert_flat:
  assumes "well_formed_input e gbk_path"
  shows "fst (convert_gbk_to_sqlite e gbk_path b w) = None
       \<and> db (snd (convert_gbk_to_sqlite e gbk_path b w)) = flat_db e gbk_path (db w)"
proof -
  obtain g s0 where st: "start_locals gbk_path b w = (g, s0)"
    by (cases "start_locals gbk_path b w") blast
  obtain rs where it: "iter_gb_records e gbk_path = (rs, None)" and wf: "list_all wf_record rs"
    using assms by (auto simp add: well_formed_input_def)
  note v0 = start_locals_view [OF st]
  from record_loop_view [OF wf, of b g s0] obtain s1 where
    rl: "record_loop b g rs s0 = Inr s1"
    and f1: "fv s1 = fv s0 @ all_feature_rows (genome_id g) (record_seq (db (the_world s0))) rs"
    and q1: "qv s1 = qv s0 @ all_qualifier_rows (genome_id g) (record_seq (db (the_world s0))) rs"
    and r1: "rest s1 = ref_records (genome_id g) rs (rest s0)"
    by blast
  have res: "convert_gbk_to_sqlite e gbk_path b w = (None, final_flush s1)"
    by (simp add: convert_gbk_to_sqlite_def st it rl)
  have "db (final_flush s1) = flat_db e gbk_path (db w)"
    unfolding final_flush_db f1 q1 r1 v0 ref_records_explicit flat_db_def Let_def it
    by (auto simp add: fun_upd_twist intro!: database.equality)
  with res show ?thesis by simp
qed

lemma result_world_simps [simp]:
  "result_world (Inl (err, w)) = w" "result_world (Inr s) = the_world s"
  by (simp_all add: result_world_def)

lemma result_bounded_simps [simp]:
  "result_bounded b (Inl x) = True" "result_bounded b (Inr s) = bounded b s"
  by (simp_all add: result_bounded_def)

lemma calls_ok_append:
  assumes "effects w' = effects w @ es" "list_all (call_ok b) es" "calls_ok n b w"
  shows "calls_ok n b w'"
proof -
  from assms(2) have "list_all (call_ok b) (drop (n - length (effects w)) es)"
    by (auto simp add: list_all_iff dest: in_set_dropD)
  with assms(1,3) show ?thesis by (simp add: calls_ok_def)
qed

lemma calls_ok_bulk_insert:
  assumes "calls_ok n b w" "int (length vals) \<le> b"
  shows "calls_ok n b (bulk_insert_tuples vals t cols w)"
  by (rule calls_ok_append [OF bulk_insert_effects _ assms(1)]) (use assms(2) in simp)

lemma append_feature_tuple_bounded:
  assumes "1 \<le> b" "bounded b s" "calls_ok n b (the_world s)"
  shows "bounded b (append_feature_tuple b r s)"
    and "calls_ok n b (the_world (append_feature_tuple b r s))"
  using assms
  by (auto simp add: append_feature_tuple_def Let_def bounded_def intro!: calls_ok_bulk_insert)

lemma append_qualifier_tuple_bounded:
  assumes "1 \<le> b" "bounded b s" "calls_ok n b (the_world s)"
  shows "bounded b (append_qualifier_tuple b r s)"
    and "calls_ok n b (the_world (append_qualifier_tuple b r s))"
  using assms
  by (auto simp add: append_qualifier_tuple_def Let_def bounded_def intro!: calls_ok_bulk_insert)

lemma qualifier_loop_bounded:
  assumes "1 \<le> b" "bounded b s" "calls_ok n b (the_world s)"
  shows "bounded b (qualifier_loop b g ro idx qs s)
       \<and> calls_ok n b (the_world (qualifier_loop b g ro idx qs s))"
  using assms(2,3)
  by (induction qs arbitrary: s) (simp_all add: append_qualifier_tuple_bounded [OF assms(1)])

lemma location_fields_calls_ok:
  assumes "calls_ok n b w"
  shows "calls_ok n b (case location_fields idx ro ftr w of Inl (err, w1) \<Rightarrow> w1 | Inr (loc, w1) \<Rightarrow> w1)"
  using assms
  by (auto simp add: location_fields_def Let_def warnings_warn_def
      split: option.splits intro: calls_ok_append [where es = "[Warn m]" for m])

lemma feature_loop_bounded:
  assumes "1 \<le> b" "bounded b s" "calls_ok n b (the_world s)"
  shows "result_bounded b (feature_loop b g ro idx fs s)
       \<and> calls_ok n b (result_world (feature_loop b g ro idx fs s))"
  using assms(2,3)
proof (induction fs arbitrary: idx s)
  case Nil
  then show ?case by simp
next
  case (Cons ftr fs)
  show ?case
  proof (cases "location_fields idx ro ftr (the_world s)")
    case (Inl x)
    with location_fields_calls_ok [OF Cons.prems(2), of idx ro ftr] show ?thesis
      by (cases x) simp
  next
    case (Inr y)
    obtain loc w1 where y: "y = (loc, w1)" by (cases y)
    with Inr location_fields_calls_ok [OF Cons.prems(2), of idx ro ftr]
    have c1: "calls_ok n b w1" by simp
    let ?s0 = "s\<lparr>the_world := w1\<rparr>"
    let ?s1 = "append_feature_tuple b (feature_row (genome_id g) (ro_id ro) idx loc) ?s0"
    let ?s2 = "qualifier_loop b g ro idx (qualifiers ftr) ?s1"
    from Cons.prems(1) have b0: "bounded b ?s0" by (simp add: bounded_def)
    from c1 have c0: "calls_ok n b (the_world ?s0)" by simp
    note a = append_feature_tuple_bounded [OF assms(1) b0 c0]
    from qualifier_loop_bounded [OF assms(1) a]
    have "bounded b ?s2" "calls_ok n b (the_world ?s2)" by blast+
    from Cons.IH [OF this] show ?thesis
      using Inr y by (simp add: Let_def)
  qed
qed

lemma Record_create_calls_ok:
  assumes "calls_ok n b w"
  shows "calls_ok n b (snd (Record_create g nm dfn acc ver w))"
  by (rule calls_ok_append [OF _ _ assms, where es = "[OrmInsert ''record'' x]" for x])
    (simp_all add: Record_create_def Let_def)

lemma record_loop_bounded:
  assumes "1 \<le> b" "bounded b s" "calls_ok n b (the_world s)"
  shows "result_bounded b (record_loop b g rs s)
       \<and> calls_ok n b (result_world (record_loop b g rs s))"
  using assms(2,3)
proof (induction rs arbitrary: s)
  case Nil
  then show ?case by simp
next
  case (Cons r rs)
  obtain ro w1 where rc:
    "Record_create g (rec_name r) (rec_definition r) (rec_accession r) (rec_version r)
       (the_world s) = (ro, w1)"
    by (cases "Record_create g (rec_name r) (rec_definition r) (rec_accession r) (rec_version r)
       (the_world s)") blast
  let ?s1 = "s\<lparr>the_world := w1, record_objs := record_objs s @ [ro]\<rparr>"
  from Record_create_calls_ok [OF Cons.prems(2), of g "rec_name r" "rec_definition r"
      "rec_accession r" "rec_version r"] rc
  have c1: "calls_ok n b (the_world ?s1)" by simp
  from Cons.prems(1) have b1: "bounded b ?s1" by (simp add: bounded_def)
  note fl = feature_loop_bounded [OF assms(1) b1 c1, of g ro 0 "features r"]
  show ?case
  proof (cases "feature_loop b g ro 0 (features r) ?s1")
    case (Inl x)
    with fl rc show ?thesis by (cases x) simp
  next
    case (Inr s2)
    with fl have "bounded b s2" "calls_ok n b (the_world s2)" by simp_all
    from Cons.IH [OF this] show ?thesis using rc Inr by simp
  qed
qed

lemma example_input:
  "iter_gb_records example_env ''x.gbk'' = ([record_A, record_B], None)"
  by (simp add: iter_gb_records_def endswith_def example_env_def env_of_def)

lemma example_wf_record_A: "wf_record record_A"
  by (simp add: wf_record_def wf_location_def record_A_def feature_A0_def feature_A1_def
      feature_A2_def)

lemma example_wf_record_B: "wf_record record_B"
  by (simp add: wf_record_def record_B_def)

lemma example_wf_records: "list_all wf_record [record_A, record_B]"
  using example_wf_record_A example_wf_record_B by simp

lemma example_well_formed: "well_formed_input example_env ''x.gbk''"
  by (simp add: well_formed_input_def example_input example_wf_record_A example_wf_record_B)

lemma start_locals_effects:
  "effects (the_world (snd (start_locals gbk_path b w))) =
     effects w @
     [LogInfo (''Converting '' @ gbk_path @ '' to SQLite database using batch size '' @
               py_str_int b),
      OrmInsert ''genome'' [PyInt (genome_seq (db w) + 1), PyStr gbk_path],
      OpenInput gbk_path]"
  by (simp add: start_locals_def Genome_create_def logging_info_def Let_def)

lemma start_locals_buffers:
  "feature_tuples (snd (start_locals gbk_path b w)) = []"
  "qualifier_tuples (snd (start_locals gbk_path b w)) = []"
  "record_objs (snd (start_locals gbk_path b w)) = []"
  by (simp_all add: start_locals_def Genome_create_def Let_def)

lemma final_flush_calls_ok:
  assumes "bounded b s" "calls_ok n b (the_world s)"
  shows "calls_ok n b (final_flush s)"
  using assms
  by (auto simp add: final_flush_def Let_def bounded_def intro!: calls_ok_bulk_insert)

lemma convert_world:
  "snd (convert_gbk_to_sqlite e gbk_path b w) =
     (case record_loop b (fst (start_locals gbk_path b w)) (fst (iter_gb_records e gbk_path))
             (snd (start_locals gbk_path b w)) of
        Inl (err, w1) \<Rightarrow> w1
      | Inr s1 \<Rightarrow> (case snd (iter_gb_records e gbk_path) of
                     Some err \<Rightarrow> the_world s1
                   | None \<Rightarrow> final_flush s1))"
  by (simp add: convert_gbk_to_sqlite_def split: prod.splits sum.splits option.splits)

lemma convert_calls_ok:
  assumes "1 \<le> b"
  shows "calls_ok (length (effects w)) b (snd (convert_gbk_to_sqlite e gbk_path b w))"
proof -
  let ?n = "length (effects w)"
  let ?s0 = "snd (start_locals gbk_path b w)"
  have "calls_ok ?n b w" by (simp add: calls_ok_def)
  from calls_ok_append [OF start_locals_effects _ this]
  have c0: "calls_ok ?n b (the_world ?s0)" by simp
  from assms have b0: "bounded b ?s0" by (simp add: bounded_def start_locals_buffers)
  note rl = record_loop_bounded [OF assms b0 c0, of "fst (start_locals gbk_path b w)"
      "fst (iter_gb_records e gbk_path)"]
  show ?thesis
    unfolding convert_world
    using rl by (auto split: sum.splits option.splits intro: final_flush_calls_ok)
qed

lemma iter_env_of_plain: "iter_gb_records (env_of st) ''x.gbk'' = st"
  by (simp add: iter_gb_records_def endswith_def env_of_def)

lemma append_feature_tuple_table:
  "tables (db (the_world (append_feature_tuple b r s))) ''feature'' =
     (if b \<le> int (length (feature_tuples s)) + 1
      then tables (db (the_world s)) ''feature'' @ feature_tuples s @ [r]
      else tables (db (the_world s)) ''feature'')"
  by (simp add: append_feature_tuple_def Let_def bulk_insert_db)

lemma location_fields_A2:
  "location_fields idx ro feature_A2 w = Inr ((PyInt 4, PyInt 7, PyNone), w)"
  by (simp add: location_fields_def feature_A2_def)

lemma start_locals_genome:
  "genome_id (fst (start_locals gbk_path b w)) = genome_seq (db w) + 1"
  by (simp add: start_locals_def Genome_create_def logging_info_def Let_def)

lemma start_locals_tables:
  "tables (db (the_world (snd (start_locals gbk_path b w)))) =
     (tables (db w))(''genome'' := tables (db w) ''genome'' @
        [[PyInt (genome_seq (db w) + 1), PyStr gbk_path]])"
  "record_seq (db (the_world (snd (start_locals gbk_path b w)))) = record_seq (db w)"
  by (simp_all add: start_locals_def Genome_create_def logging_info_def Let_def)

lemma Record_create_simps:
  "ro_id (fst (Record_create g nm dfn acc ver w)) = record_seq (db w) + 1"
  "tables (db (snd (Record_create g nm dfn acc ver w))) =
     (tables (db w))(''record'' := tables (db w) ''record'' @
        [[PyInt (record_seq (db w) + 1), PyInt (genome_id g), nm, dfn, acc, ver]])"
  by (simp_all add: Record_create_def Let_def)

lemma qualifiers_A2: "qualifiers feature_A2 = []"
  by (simp add: feature_A2_def)

lemma feature_rows_rid:
  "r \<in> set (feature_rows gid rid idx fs) \<Longrightarrow> r ! Suc 0 = PyInt rid"
  by (induction fs arbitrary: idx) (auto simp add: feature_row_def split: prod.splits)

lemma feature_rows_index:
  "map (\<lambda>r. r ! Suc (Suc 0)) (feature_rows gid rid idx fs) =
     map (\<lambda>i. PyInt (int i)) [idx ..< idx + length fs]"
proof (induction fs arbitrary: idx)
  case Nil
  then show ?case by simp
next
  case (Cons ftr fs)
  have "[idx ..< Suc (idx + length fs)] = idx # [Suc idx ..< Suc (idx + length fs)]"
    by (rule upt_conv_Cons) simp
  with Cons.IH [of "Suc idx"] show ?case
    by (simp del: upt_Suc add: feature_row_def split: prod.splits)
qed

lemma length_feature_rows [simp]: "length (feature_rows gid rid idx fs) = length fs"
  by (induction fs arbitrary: idx) simp_all

lemma length_qualifier_rows [simp]:
  "length (qualifier_rows gid rid idx fs) = sum_list (map (\<lambda>ftr. length (qualifiers ftr)) fs)"
  by (induction fs arbitrary: idx) simp_all

lemma length_all_feature_rows [simp]:
  "length (all_feature_rows gid sq rs) = sum_list (map (\<lambda>r. length (features r)) rs)"
  by (induction rs arbitrary: sq) simp_all

lemma length_all_qualifier_rows [simp]:
  "length (all_qualifier_rows gid sq rs) =
     sum_list (map (\<lambda>r. sum_list (map (\<lambda>ftr. length (qualifiers ftr)) (features r))) rs)"
  by (induction rs arbitrary: sq) simp_all

lemma length_record_rows [simp]: "length (record_rows gid sq rs) = length rs"
  by (induction rs arbitrary: sq) simp_all

lemma all_feature_rows_rid:
  "r \<in> set (all_feature_rows gid sq rs) \<Longrightarrow> \<exists>j. r ! Suc 0 = PyInt j \<and> sq < j"
proof (induction rs arbitrary: sq)
  case Nil
  then show ?case by simp
next
  case (Cons x rs)
  from Cons.prems consider
    "r \<in> set (feature_rows gid (sq + 1) 0 (features x))"
    | "r \<in> set (all_feature_rows gid (sq + 1) rs)"
    by auto
  then show ?case
  proof cases
    case 1
    then show ?thesis using feature_rows_rid by fastforce
  next
    case 2
    from Cons.IH [OF this] show ?thesis by force
  qed
qed

lemma filter_feature_rows:
  "filter (\<lambda>r. r ! Suc 0 = PyInt j) (feature_rows gid rid idx fs) =
     (if j = rid then feature_rows gid rid idx fs else [])"
proof -
  have "\<forall>r \<in> set (feature_rows gid rid idx fs). (r ! Suc 0 = PyInt j) = (j = rid)"
    using feature_rows_rid by fastforce
  then show ?thesis
    by (cases "j = rid") (simp_all add: filter_empty_conv)
qed

lemma filter_all_feature_rows_none:
  "j \<le> sq \<Longrightarrow> filter (\<lambda>r. r ! Suc 0 = PyInt j) (all_feature_rows gid sq rs) = []"
  using all_feature_rows_rid by (fastforce simp add: filter_empty_conv)

lemma filter_all_feature_rows:
  "k < length rs \<Longrightarrow>
   filter (\<lambda>r. r ! Suc 0 = PyInt (sq + 1 + int k)) (all_feature_rows gid sq rs) =
     feature_rows gid (sq + 1 + int k) 0 (features (rs ! k))"
proof (induction rs arbitrary: sq k)
  case Nil
  then show ?case by simp
next
  case (Cons x rs)
  show ?case
  proof (cases k)
    case 0
    then show ?thesis
      by (simp add: filter_feature_rows filter_all_feature_rows_none)
  next
    case (Suc k')
    with Cons.prems have "k' < length rs" by simp
    have eq: "sq + 1 + int (Suc k') = sq + 1 + 1 + int k'" by simp
    from Cons.IH [OF \<open>k' < length rs\<close>, of "sq + 1"] show ?thesis
      unfolding Suc eq by (simp add: filter_feature_rows)
  qed
qed

lemma location_fields_not_wf:
  "\<not> wf_location (location ftr) \<Longrightarrow> location_fields idx ro ftr w = Inl (AttributeError, w)"
  by (auto simp add: location_fields_def wf_location_def split: option.splits)

lemma flat_db_tables:
  "tables (flat_db e gbk_path d) ''genome'' =
     tables d ''genome'' @ [[PyInt (genome_seq d + 1), PyStr gbk_path]]"
  "tables (flat_db e gbk_path d) ''record'' =
     tables d ''record'' @ record_rows (genome_seq d + 1) (record_seq d) (fst (iter_gb_records e gbk_path))"
  "tables (flat_db e gbk_path d) ''feature'' =
     tables d ''feature'' @
       all_feature_rows (genome_seq d + 1) (record_seq d) (fst (iter_gb_records e gbk_path))"
  "tables (flat_db e gbk_path d) ''qualifier'' =
     tables d ''qualifier'' @
       all_qualifier_rows (genome_seq d + 1) (record_seq d) (fst (iter_gb_records e gbk_path))"
  by (simp_all add: flat_db_def Let_def)

lemma record_rows_nth:
  "k < length rs \<Longrightarrow>
   record_rows gid sq rs ! k =
     [PyInt (sq + 1 + int k), PyInt gid, rec_name (rs ! k), rec_definition (rs ! k),
      rec_accession (rs ! k), rec_version (rs ! k)]"
proof (induction rs arbitrary: sq k)
  case Nil
  then show ?case by simp
next
  case (Cons x rs)
  show ?case
  proof (cases k)
    case 0
    then show ?thesis by simp
  next
    case (Suc k')
    with Cons.prems have "k' < length rs" by simp
    from Cons.IH [OF this, of "sq + 1"] Suc show ?thesis by simp
  qed
qed

lemma record_loop_mid_stream:
  assumes "1 \<le> b" and "list_all wf_record rs"
    and "feature_tuples s = []" and "qualifier_tuples s = []"
  shows "\<exists>s1. record_loop b g rs s = Inr s1
          \<and> int (length (tables (db (the_world s)) ''feature''))
               + int (sum_list (map (\<lambda>r. length (features r)) rs)) - b
             < int (length (tables (db (the_world s1)) ''feature''))"
proof -
  from record_loop_view [OF assms(2), of b g s] obtain s1 where
    rl: "record_loop b g rs s = Inr s1"
    and f1: "fv s1 = fv s @ all_feature_rows (genome_id g) (record_seq (db (the_world s))) rs"
    by blast
  have c0: "calls_ok (length (effects (the_world s))) b (the_world s)"
    by (simp add: calls_ok_def)
  have b0: "bounded b s"
    using assms(1,3,4) by (simp add: bounded_def)
  from record_loop_bounded [OF assms(1) b0 c0, of g rs] rl
  have "int (length (feature_tuples s1)) < b"
    by (simp add: bounded_def)
  moreover from f1 have "length (fv s1) =
      length (fv s @ all_feature_rows (genome_id g) (record_seq (db (the_world s))) rs)"
    by simp
  with assms(3)
  have "length (tables (db (the_world s1)) ''feature'') + length (feature_tuples s1) =
          length (tables (db (the_world s)) ''feature'') +
          sum_list (map (\<lambda>r. length (features r)) rs)"
    by (simp add: fv_def)
  ultimately show ?thesis
    using rl by simp
qed

lemma append_feature_tuple_proj:
  "effects (the_world (append_feature_tuple b r s)) =
     effects (the_world s) @
     (if b \<le> int (length (feature_tuples s)) + 1
      then [Executemany (insert_sql ''feature'' feature_columns) (feature_tuples s @ [r]), Commit]
      else [])"
  "feature_tuples (append_feature_tuple b r s) =
     (if b \<le> int (length (feature_tuples s)) + 1 then [] else feature_tuples s @ [r])"
  "qualifier_tuples (append_feature_tuple b r s) = qualifier_tuples s"
  by (simp_all add: append_feature_tuple_def Let_def bulk_insert_effects)

lemma append_qualifier_tuple_proj:
  "effects (the_world (append_qualifier_tuple b r s)) =
     effects (the_world s) @
     (if b \<le> int (length (qualifier_tuples s)) + 1
      then [Executemany (insert_sql ''qualifier'' qualifier_columns) (qualifier_tuples s @ [r]),
            Commit]
      else [])"
  "qualifier_tuples (append_qualifier_tuple b r s) =
     (if b \<le> int (length (qualifier_tuples s)) + 1 then [] else qualifier_tuples s @ [r])"
  "feature_tuples (append_qualifier_tuple b r s) = feature_tuples s"
  by (simp_all add: append_qualifier_tuple_def Let_def bulk_insert_effects)

lemma final_flush_effects:
  "effects (final_flush s) =
     effects (the_world s) @
     (if feature_tuples s = [] then []
      else [Executemany (insert_sql ''feature'' feature_columns) (feature_tuples s), Commit]) @
     (if qualifier_tuples s = [] then []
      else [Executemany (insert_sql ''qualifier'' qualifier_columns) (qualifier_tuples s),
            Commit])"
  by (simp add: final_flush_def Let_def bulk_insert_effects)

lemma Record_create_effects:
  "effects (snd (Record_create g nm dfn acc ver w)) =
     effects w @ [OrmInsert ''record'' [PyInt (record_seq (db w) + 1), PyInt (genome_id g),
                    nm, dfn, acc, ver]]"
  "record_seq (db (snd (Record_create g nm dfn acc ver w))) = record_seq (db w) + 1"
  "ro_name (fst (Record_create g nm dfn acc ver w)) = nm"
  by (simp_all add: Record_create_def Let_def)

lemma append_tuple_db_seq:
  "record_seq (db (the_world (append_feature_tuple b r s))) = record_seq (db (the_world s))"
  "record_seq (db (the_world (append_qualifier_tuple b r s))) = record_seq (db (the_world s))"
  by (simp_all add: append_feature_tuple_def append_qualifier_tuple_def Let_def bulk_insert_db)

lemma location_fields_A0:
  "location_fields idx ro feature_A0 w = Inr ((PyInt 1, PyInt 9, PyStr ''+''), w)"
  by (simp add: location_fields_def feature_A0_def)

lemma location_fields_A1:
  "location_fields (Suc 0) ro feature_A1 w =
     Inr ((PyInt 3, PyNone, PyNone),
          warnings_warn (''Feature 1 of record '' @ py_str (ro_name ro) @
                         '' does not have strand attribute'') w)"
  by (simp add: location_fields_def feature_A1_def decimal.simps digit_char_def)

lemma warnings_warn_proj [simp]:
  "effects (warnings_warn m w) = effects w @ [Warn m]" "db (warnings_warn m w) = db w"
  by (simp_all add: warnings_warn_def)

lemma qualifiers_examples:
  "qualifiers feature_A0 = [\<lparr>q_key = PyStr ''gene'', q_value = PyStr ''abc''\<rparr>,
                            \<lparr>q_key = PyStr ''note'', q_value = PyNone\<rparr>]"
  "qualifiers feature_A1 = []"
  by (simp_all add: feature_A0_def feature_A1_def)

lemma example_fields:
  "rec_name record_A = PyStr ''A''" "rec_definition record_A = PyNone"
  "rec_accession record_A = PyStr ''ACC1''" "rec_version record_A = PyNone"
  "features record_A = [feature_A0, feature_A1, feature_A2]"
  "rec_name record_B = PyStr ''B''" "rec_definition record_B = PyNone"
  "rec_accession record_B = PyStr ''ACC2''" "rec_version record_B = PyNone"
  "features record_B = []"
  by (simp_all add: record_A_def record_B_def)

lemma example_trace:
  "effects (snd (convert_gbk_to_sqlite example_env ''x.gbk'' 2 empty_world)) =
    [LogInfo ''Converting x.gbk to SQLite database using batch size 2'',
     OrmInsert ''genome'' [PyInt 1, PyStr ''x.gbk''],
     OpenInput ''x.gbk'',
     OrmInsert ''record'' [PyInt 1, PyInt 1, PyStr ''A'', PyNone, PyStr ''ACC1'', PyNone],
     Executemany (insert_sql ''qualifier'' qualifier_columns)
       [[PyInt 1, PyInt 1, PyInt 0, PyStr ''gene'', PyStr ''abc''],
        [PyInt 1, PyInt 1, PyInt 0, PyStr ''note'', PyNone]],
     Commit,
     Warn ''Feature 1 of record A does not have strand attribute'',
     Executemany (insert_sql ''feature'' feature_columns)
       [[PyInt 1, PyInt 1, PyInt 0, PyInt 1, PyInt 9, PyStr ''+''],
        [PyInt 1, PyInt 1, PyInt 1, PyInt 3, PyNone, PyNone]],
     Commit,
     OrmInsert ''record'' [PyInt 2, PyInt 1, PyStr ''B'', PyNone, PyStr ''ACC2'', PyNone],
     Executemany (insert_sql ''feature'' feature_columns)
       [[PyInt 1, PyInt 1, PyInt 2, PyInt 4, PyInt 7, PyNone]],
     Commit]"
  unfolding convert_world example_input
  by (simp add: example_fields qualifiers_examples qualifiers_A2 location_fields_A0
      location_fields_A1 location_fields_A2 feature_row_def qualifier_row_def
      append_feature_tuple_proj append_qualifier_tuple_proj final_flush_effects
      Record_create_effects Record_create_simps append_tuple_db_seq start_locals_effects
      start_locals_buffers start_locals_genome start_locals_tables
      py_str_int_def decimal.simps digit_char_def empty_world_def
      split_beta Let_def)

lemma execute_sql_db:
  "map_sum fst db (execute_sql sc stmt w) = exec_db sc stmt (db w)"
  by (cases stmt) (simp add: execute_sql_def exec_db_def index_names_def Let_def)

lemma execute_all_db:
  "map_sum fst db (execute_all sc stmts w) = exec_all_db sc stmts (db w)"
proof (induction stmts arbitrary: w)
  case Nil
  then show ?case by simp
next
  case (Cons stmt stmts)
  show ?case
  proof (cases "execute_sql sc stmt w")
    case (Inl x)
    with execute_sql_db [of sc stmt w] have "exec_db sc stmt (db w) = Inl (fst x)" by auto
    with Inl show ?thesis by simp
  next
    case (Inr w1)
    with execute_sql_db [of sc stmt w] have "exec_db sc stmt (db w) = Inr (db w1)" by auto
    with Inr Cons.IH [of w1] show ?thesis by simp
  qed
qed

lemma create_indexes_db:
  "fst (create_indexes sc w) =
     (case exec_all_db sc index_statements (db w) of Inl err \<Rightarrow> Some err | Inr d \<Rightarrow> None)"
  "db (snd (create_indexes sc w)) =
     (case exec_all_db sc index_statements (db w) of Inl err \<Rightarrow> db w | Inr d \<Rightarrow> d)"
  using execute_all_db [of sc index_statements w]
  by (auto simp add: create_indexes_def commit_def split: sum.splits prod.splits)

lemma exec_db_grows:
  assumes "exec_db sc stmt d = Inr d'"
  shows "set (index_names d') = insert (stmt_name stmt) (set (index_names d))"
    and "tables d' = tables d"
    and "distinct (index_names d') = distinct (index_names d)"
  using assms
  by (cases stmt; auto simp add: exec_db_def index_names_def split: if_splits)+

lemma exec_all_db_grows:
  assumes "exec_all_db sc stmts d = Inr d'"
  shows "set (index_names d') = stmt_name ` set stmts \<union> set (index_names d)
       \<and> tables d' = tables d
       \<and> distinct (index_names d') = distinct (index_names d)"
  using assms
proof (induction stmts arbitrary: d)
  case Nil
  then show ?case by simp
next
  case (Cons stmt stmts)
  from Cons.prems obtain d1 where
    e1: "exec_db sc stmt d = Inr d1" and e2: "exec_all_db sc stmts d1 = Inr d'"
    by (auto split: sum.splits)
  from Cons.IH [OF e2] exec_db_grows [OF e1] show ?case by auto
qed

lemma exec_all_db_present:
  assumes "list_all stmt_guarded stmts"
    and "stmt_name ` set stmts \<subseteq> set (index_names d)"
  shows "exec_all_db sc stmts d = Inr d"
  using assms
proof (induction stmts)
  case Nil
  then show ?case by simp
next
  case (Cons stmt stmts)
  then have "exec_db sc stmt d = Inr d"
    by (cases stmt) (simp add: exec_db_def)
  with Cons show ?case by simp
qed

lemma exec_all_db_columns:
  assumes "list_all stmt_guarded stmts"
    and "list_all (stmt_columns_exist sc) stmts"
  shows "\<exists>d'. exec_all_db sc stmts d = Inr d'"
  using assms
proof (induction stmts arbitrary: d)
  case Nil
  then show ?case by simp
next
  case (Cons stmt stmts)
  then have "\<exists>d1. exec_db sc stmt d = Inr d1"
    by (cases stmt) (simp add: exec_db_def)
  with Cons show ?case by auto
qed

lemma index_statements_guarded: "list_all stmt_guarded index_statements"
  by (simp add: index_statements_def)

lemma index_statement_names:
  "stmt_name ` set index_statements =
     {''idx_qualifier_feature'', ''idx_qualifier_feature_key'', ''idx_feature_record'',
      ''idx_record_genome''}"
  by (simp add: index_statements_def)

lemma create_indexes_tuple_schema:
  "fst (create_indexes tuple_schema empty_world) = Some DatabaseError"
  by (simp add: create_indexes_db index_statements_def exec_db_def index_names_def
      tuple_schema_def qualifier_columns_def empty_world_def)

lemma append_tuple_genome:
  "tables (db (the_world (append_feature_tuple b r s))) ''genome'' =
     tables (db (the_world s)) ''genome''"
  "tables (db (the_world (append_qualifier_tuple b r s))) ''genome'' =
     tables (db (the_world s)) ''genome''"
  by (simp_all add: append_feature_tuple_def append_qualifier_tuple_def Let_def bulk_insert_db)

lemma append_tuple_grows:
  "\<exists>es. effects (the_world (append_feature_tuple b r s)) = effects (the_world s) @ es"
  "\<exists>es. effects (the_world (append_qualifier_tuple b r s)) = effects (the_world s) @ es"
  by (simp_all add: append_feature_tuple_proj append_qualifier_tuple_proj)

lemma qualifier_loop_frame:
  "tables (db (the_world (qualifier_loop b g ro idx qs s))) ''genome'' =
     tables (db (the_world s)) ''genome''
   \<and> (\<exists>es. effects (the_world (qualifier_loop b g ro idx qs s)) = effects (the_world s) @ es)"
proof (induction qs arbitrary: s)
  case Nil
  then show ?case by simp
next
  case (Cons q qs)
  let ?s1 = "append_qualifier_tuple b (qualifier_row (genome_id g) (ro_id ro) idx q) s"
  from append_tuple_grows(2) [of b _ s] obtain es1 where
    "effects (the_world ?s1) = effects (the_world s) @ es1" by blast
  moreover from Cons.IH [of ?s1] obtain es2 where
    "tables (db (the_world (qualifier_loop b g ro idx qs ?s1))) ''genome'' =
       tables (db (the_world ?s1)) ''genome''"
    "effects (the_world (qualifier_loop b g ro idx qs ?s1)) = effects (the_world ?s1) @ es2"
    by blast
  ultimately show ?case by (simp add: append_tuple_genome)
qed

lemma location_fields_frame:
  "(case location_fields idx ro ftr w of
      Inl (err, w1) \<Rightarrow> db w1 = db w \<and> (\<exists>es. effects w1 = effects w @ es)
    | Inr (loc, w1) \<Rightarrow> db w1 = db w \<and> (\<exists>es. effects w1 = effects w @ es))"
  by (simp add: location_fields_def Let_def split: option.splits)

lemma feature_loop_frame:
  "tables (db (result_world (feature_loop b g ro idx fs s))) ''genome'' =
     tables (db (the_world s)) ''genome''
   \<and> (\<exists>es. effects (result_world (feature_loop b g ro idx fs s)) = effects (the_world s) @ es)"
proof (induction fs arbitrary: idx s)
  case Nil
  then show ?case by simp
next
  case (Cons ftr fs)
  show ?case
  proof (cases "location_fields idx ro ftr (the_world s)")
    case (Inl x)
    with location_fields_frame [where idx = idx and ro = ro and ftr = ftr and w = "the_world s"] show ?thesis
      by (cases x) auto
  next
    case (Inr y)
    obtain loc w1 where y: "y = (loc, w1)" by (cases y)
    with Inr location_fields_frame [where idx = idx and ro = ro and ftr = ftr and w = "the_world s"] obtain es0 where
      d1: "db w1 = db (the_world s)" and e1: "effects w1 = effects (the_world s) @ es0"
      by auto
    let ?s0 = "s\<lparr>the_world := w1\<rparr>"
    let ?s1 = "append_feature_tuple b (feature_row (genome_id g) (ro_id ro) idx loc) ?s0"
    let ?s2 = "qualifier_loop b g ro idx (qualifiers ftr) ?s1"
    from append_tuple_grows(1) [of b _ ?s0] obtain es1 where
      e2: "effects (the_world ?s1) = effects w1 @ es1" by auto
    from qualifier_loop_frame [of b g ro idx "qualifiers ftr" ?s1] obtain es2 where
      g3: "tables (db (the_world ?s2)) ''genome'' = tables (db (the_world ?s1)) ''genome''"
      and e3: "effects (the_world ?s2) = effects (the_world ?s1) @ es2" by blast
    from Cons.IH [of "Suc idx" ?s2] obtain es3 where
      g4: "tables (db (result_world (feature_loop b g ro (Suc idx) fs ?s2))) ''genome'' =
            tables (db (the_world ?s2)) ''genome''"
      and e4: "effects (result_world (feature_loop b g ro (Suc idx) fs ?s2)) =
            effects (the_world ?s2) @ es3" by blast
    have g2: "tables (db (the_world ?s1)) ''genome'' = tables (db (the_world s)) ''genome''"
      by (simp add: append_tuple_genome d1)
    from g2 g3 g4 e1 e2 e3 e4 show ?thesis
      using Inr y by (simp add: Let_def)
  qed
qed

lemma record_loop_frame:
  "tables (db (result_world (record_loop b g rs s))) ''genome'' =
     tables (db (the_world s)) ''genome''
   \<and> (\<exists>es. effects (result_world (record_loop b g rs s)) = effects (the_world s) @ es)"
proof (induction rs arbitrary: s)
  case Nil
  then show ?case by simp
next
  case (Cons r rs)
  let ?rc = "Record_create g (rec_name r) (rec_definition r) (rec_accession r) (rec_version r)
               (the_world s)"
  let ?s1 = "s\<lparr>the_world := snd ?rc, record_objs := record_objs s @ [fst ?rc]\<rparr>"
  have g1: "tables (db (the_world ?s1)) ''genome'' = tables (db (the_world s)) ''genome''"
    by (simp add: Record_create_simps)
  have e1: "effects (the_world ?s1) = effects (the_world s) @
      [OrmInsert ''record'' [PyInt (record_seq (db (the_world s)) + 1), PyInt (genome_id g),
         rec_name r, rec_definition r, rec_accession r, rec_version r]]"
    by (simp add: Record_create_effects)
  from feature_loop_frame [of b g "fst ?rc" 0 "features r" ?s1] obtain es2 where
    g2: "tables (db (result_world (feature_loop b g (fst ?rc) 0 (features r) ?s1))) ''genome'' =
           tables (db (the_world ?s1)) ''genome''"
    and e2: "effects (result_world (feature_loop b g (fst ?rc) 0 (features r) ?s1)) =
           effects (the_world ?s1) @ es2" by blast
  show ?case
  proof (cases "feature_loop b g (fst ?rc) 0 (features r) ?s1")
    case (Inl x)
    with g1 g2 e1 e2 show ?thesis
      by (cases x) (simp add: split_beta)
  next
    case (Inr s2)
    from Cons.IH [of s2] obtain es3 where
      "tables (db (result_world (record_loop b g rs s2))) ''genome'' =
         tables (db (the_world s2)) ''genome''"
      "effects (result_world (record_loop b g rs s2)) = effects (the_world s2) @ es3"
      by blast
    with Inr g1 g2 e1 e2 show ?thesis
      by (simp add: split_beta)
  qed
qed

lemma final_flush_frame:
  "tables (db (final_flush s)) ''genome'' = tables (db (the_world s)) ''genome''
   \<and> (\<exists>es. effects (final_flush s) = effects (the_world s) @ es)"
  by (simp add: final_flush_effects final_flush_db rest_def)

lemma convert_frame:
  "tables (db (snd (convert_gbk_to_sqlite e gbk_path b w))) ''genome'' =
     tables (db w) ''genome'' @ [[PyInt (genome_seq (db w) + 1), PyStr gbk_path]]
   \<and> (\<exists>es. effects (snd (convert_gbk_to_sqlite e gbk_path b w)) =
         effects w @
         [LogInfo (''Converting '' @ gbk_path @ '' to SQLite database using batch size '' @
                   py_str_int b),
          OrmInsert ''genome'' [PyInt (genome_seq (db w) + 1), PyStr gbk_path],
          OpenInput gbk_path] @ es)"
proof -
  let ?s0 = "snd (start_locals gbk_path b w)"
  let ?r = "record_loop b (fst (start_locals gbk_path b w)) (fst (iter_gb_records e gbk_path)) ?s0"
  from record_loop_frame [of b "fst (start_locals gbk_path b w)"
      "fst (iter_gb_records e gbk_path)" ?s0] obtain es1 where
    g1: "tables (db (result_world ?r)) ''genome'' = tables (db (the_world ?s0)) ''genome''"
    and e1: "effects (result_world ?r) = effects (the_world ?s0) @ es1" by blast
  have g0: "tables (db (the_world ?s0)) ''genome'' =
      tables (db w) ''genome'' @ [[PyInt (genome_seq (db w) + 1), PyStr gbk_path]]"
    by (simp add: start_locals_tables)
  show ?thesis
  proof (cases ?r)
    case (Inl x)
    with g0 g1 e1 show ?thesis
      unfolding convert_world by (cases x) (simp add: start_locals_effects)
  next
    case (Inr s1)
    from final_flush_frame [of s1] obtain es2 where
      "tables (db (final_flush s1)) ''genome'' = tables (db (the_world s1)) ''genome''"
      "effects (final_flush s1) = effects (the_world s1) @ es2" by blast
    with Inr g0 g1 e1 show ?thesis
      unfolding convert_world
      by (cases "snd (iter_gb_records e gbk_path)") (simp_all add: start_locals_effects)
  qed
qed

lemma iter_env_of_gz: "iter_gb_records (env_of st) ''x.gbk.gz'' = ([], Some IOError)"
  by (simp add: iter_gb_records_def endswith_def env_of_def)

lemma convert_no_records:
  assumes "iter_gb_records e gbk_path = ([], Some err)"
  shows "convert_gbk_to_sqlite e gbk_path b w =
           (Some err, the_world (snd (start_locals gbk_path b w)))"
  by (simp add: convert_gbk_to_sqlite_def assms split: prod.splits)

lemma start_locals_db:
  "db (the_world (snd (start_locals gbk_path b w))) =
     (db w)\<lparr>tables := (tables (db w))(''genome'' := tables (db w) ''genome'' @
                [[PyInt (genome_seq (db w) + 1), PyStr gbk_path]]),
            genome_seq := genome_seq (db w) + 1\<rparr>"
  by (simp add: start_locals_def Genome_create_def logging_info_def Let_def insert_rows_def)

lemma convert_ending_error:
  assumes "snd (iter_gb_records e gbk_path) = Some err"
  shows "fst (convert_gbk_to_sqlite e gbk_path b w) \<noteq> None"
  using assms
  by (auto simp add: convert_gbk_to_sqlite_def split: prod.splits sum.splits)

lemma append_tuple_nonpos:
  assumes "b \<le> 0"
  shows "append_feature_tuple b r s = append_feature_tuple 1 r s"
    and "append_qualifier_tuple b r s = append_qualifier_tuple 1 r s"
  using assms by (simp_all add: append_feature_tuple_def append_qualifier_tuple_def Let_def)

lemma qualifier_loop_nonpos:
  "b \<le> 0 \<Longrightarrow> qualifier_loop b g ro idx qs s = qualifier_loop 1 g ro idx qs s"
  by (induction qs arbitrary: s) (simp_all add: append_tuple_nonpos)

lemma feature_loop_nonpos:
  "b \<le> 0 \<Longrightarrow> feature_loop b g ro idx fs s = feature_loop 1 g ro idx fs s"
proof (induction fs arbitrary: idx s)
  case Nil
  then show ?case by simp
next
  case (Cons ftr fs)
  show ?case
  proof (cases "location_fields idx ro ftr (the_world s)")
    case (Inl x)
    then show ?thesis by simp
  next
    case (Inr y)
    obtain loc w1 where y: "y = (loc, w1)" by (cases y)
    show ?thesis
      unfolding feature_loop.simps Inr y
      by (simp add: Let_def append_tuple_nonpos [OF Cons.prems]
          qualifier_loop_nonpos [OF Cons.prems] Cons.IH [OF Cons.prems])
  qed
qed

lemma record_loop_nonpos:
  "b \<le> 0 \<Longrightarrow> record_loop b g rs s = record_loop 1 g rs s"
proof (induction rs arbitrary: s)
  case Nil
  then show ?case by simp
next
  case (Cons r rs)
  obtain ro w1 where rc:
    "Record_create g (rec_name r) (rec_definition r) (rec_accession r) (rec_version r)
       (the_world s) = (ro, w1)"
    by (cases "Record_create g (rec_name r) (rec_definition r) (rec_accession r) (rec_version r)
       (the_world s)") blast
  let ?s1 = "s\<lparr>the_world := w1, record_objs := record_objs s @ [ro]\<rparr>"
  show ?case
  proof (cases "feature_loop 1 g ro 0 (features r) ?s1")
    case (Inl x)
    then show ?thesis
      unfolding record_loop.simps rc
      by (simp add: feature_loop_nonpos [OF Cons.prems])
  next
    case (Inr s2)
    then show ?thesis
      unfolding record_loop.simps rc
      by (simp add: feature_loop_nonpos [OF Cons.prems] Cons.IH [OF Cons.prems])
  qed
qed

lemma core_append_tuple:
  assumes "core s = core t"
  shows "core (append_feature_tuple b r s) = core (append_feature_tuple b r t)"
    and "core (append_qualifier_tuple b r s) = core (append_qualifier_tuple b r t)"
  using assms
  by (simp_all add: core_def append_feature_tuple_def append_qualifier_tuple_def Let_def
      bulk_insert_db insert_rows_def)

lemma core_qualifier_loop:
  "core s = core t \<Longrightarrow>
   core (qualifier_loop b g ro idx qs s) = core (qualifier_loop b g ro idx qs t)"
proof (induction qs arbitrary: s t)
  case Nil
  then show ?case by simp
next
  case (Cons q qs)
  from Cons.prems
  have "core (append_qualifier_tuple b (qualifier_row (genome_id g) (ro_id ro) idx q) s) =
        core (append_qualifier_tuple b (qualifier_row (genome_id g) (ro_id ro) idx q) t)"
    by (rule core_append_tuple)
  from Cons.IH [OF this] show ?case by simp
qed

lemma core_feature_loop:
  "core s = core t \<Longrightarrow>
   result_core (feature_loop b g ro idx fs s) = result_core (feature_loop b g ro idx fs t)"
proof (induction fs arbitrary: idx s t)
  case Nil
  then show ?case by (simp add: result_core_def)
next
  case (Cons ftr fs)
  show ?case
  proof (cases "wf_location (location ftr)")
    case False
    from location_fields_not_wf [OF False] Cons.prems show ?thesis
      by (simp add: result_core_def core_def)
  next
    case True
    from location_fields_wf [OF True, of idx ro "the_world s"] obtain w1 where
      l1: "location_fields idx ro ftr (the_world s) = Inr (loc_triple (location ftr), w1)"
      and d1: "db w1 = db (the_world s)" by blast
    from location_fields_wf [OF True, of idx ro "the_world t"] obtain w2 where
      l2: "location_fields idx ro ftr (the_world t) = Inr (loc_triple (location ftr), w2)"
      and d2: "db w2 = db (the_world t)" by blast
    let ?row = "feature_row (genome_id g) (ro_id ro) idx (loc_triple (location ftr))"
    from Cons.prems d1 d2 have "core (s\<lparr>the_world := w1\<rparr>) = core (t\<lparr>the_world := w2\<rparr>)"
      by (simp add: core_def)
    then have "core (append_feature_tuple b ?row (s\<lparr>the_world := w1\<rparr>)) =
               core (append_feature_tuple b ?row (t\<lparr>the_world := w2\<rparr>))"
      by (rule core_append_tuple)
    then have "core (qualifier_loop b g ro idx (qualifiers ftr)
                 (append_feature_tuple b ?row (s\<lparr>the_world := w1\<rparr>))) =
               core (qualifier_loop b g ro idx (qualifiers ftr)
                 (append_feature_tuple b ?row (t\<lparr>the_world := w2\<rparr>)))"
      by (rule core_qualifier_loop)
    from Cons.IH [OF this] show ?thesis
      by (simp add: l1 l2 Let_def)
  qed
qed

lemma core_record_loop:
  "core s = core t \<Longrightarrow>
   result_core (record_loop b g rs s) = result_core (record_loop b g rs t)"
proof (induction rs arbitrary: s t)
  case Nil
  then show ?case by (simp add: result_core_def)
next
  case (Cons r rs)
  let ?rcs = "Record_create g (rec_name r) (rec_definition r) (rec_accession r) (rec_version r)
               (the_world s)"
  let ?rct = "Record_create g (rec_name r) (rec_definition r) (rec_accession r) (rec_version r)
               (the_world t)"
  let ?s1 = "s\<lparr>the_world := snd ?rcs, record_objs := record_objs s @ [fst ?rcs]\<rparr>"
  let ?t1 = "t\<lparr>the_world := snd ?rct, record_objs := record_objs t @ [fst ?rct]\<rparr>"
  from Cons.prems have dbeq: "db (the_world s) = db (the_world t)"
    by (simp add: core_def)
  then have ro: "fst ?rcs = fst ?rct" and dd: "db (snd ?rcs) = db (snd ?rct)"
    by (simp_all add: Record_create_def Let_def insert_rows_def)
  with Cons.prems have c1: "core ?s1 = core ?t1" by (simp add: core_def)
  note fl = core_feature_loop [OF c1, of b g "fst ?rcs" 0 "features r"]
  show ?case
  proof (cases "feature_loop b g (fst ?rcs) 0 (features r) ?s1")
    case (Inl x)
    with fl ro obtain y where
      "feature_loop b g (fst ?rct) 0 (features r) ?t1 = Inl y" "result_core (Inl x) = result_core (Inl y)"
      by (cases "feature_loop b g (fst ?rct) 0 (features r) ?t1")
        (auto simp add: result_core_def split: prod.splits)
    with Inl show ?thesis by (simp add: split_beta result_core_def)
  next
    case (Inr s2)
    with fl ro obtain t2 where
      t2: "feature_loop b g (fst ?rct) 0 (features r) ?t1 = Inr t2" and "core s2 = core t2"
      by (cases "feature_loop b g (fst ?rct) 0 (features r) ?t1")
        (auto simp add: result_core_def split: prod.splits)
    from Cons.IH [OF this(2)] Inr t2 show ?thesis by (simp add: split_beta)
  qed
qed

lemma core_final_flush:
  "core s = core t \<Longrightarrow> db (final_flush s) = db (final_flush t)"
  by (simp add: final_flush_db core_def rest_def fv_def qv_def)

lemma core_start_locals:
  "fst (start_locals gbk_path b w) = fst (start_locals gbk_path b' w)"
  "core (snd (start_locals gbk_path b w)) = core (snd (start_locals gbk_path b' w))"
  by (simp_all add: start_locals_def Genome_create_def logging_info_def Let_def core_def
      insert_rows_def)

lemma convert_result_core:
  "fst (convert_gbk_to_sqlite e gbk_path b w) =
     (case result_core (record_loop b (fst (start_locals gbk_path b w))
             (fst (iter_gb_records e gbk_path)) (snd (start_locals gbk_path b w))) of
        Inl (err, d) \<Rightarrow> Some err
      | Inr c \<Rightarrow> snd (iter_gb_records e gbk_path))"
  by (simp add: convert_gbk_to_sqlite_def result_core_def
      split: prod.splits sum.splits option.splits)

lemma convert_nonpos:
  assumes "b \<le> 0"
  shows "fst (convert_gbk_to_sqlite e gbk_path b w) = fst (convert_gbk_to_sqlite e gbk_path 1 w)"
    and "db (snd (convert_gbk_to_sqlite e gbk_path b w)) =
         db (snd (convert_gbk_to_sqlite e gbk_path 1 w))"
proof -
  let ?g = "fst (start_locals gbk_path b w)"
  let ?rs = "fst (iter_gb_records e gbk_path)"
  let ?sb = "snd (start_locals gbk_path b w)"
  let ?s1 = "snd (start_locals gbk_path 1 w)"
  have g: "fst (start_locals gbk_path 1 w) = ?g" by (rule core_start_locals)
  have "result_core (record_loop b ?g ?rs ?sb) = result_core (record_loop 1 ?g ?rs ?sb)"
    by (simp add: record_loop_nonpos [OF assms])
  also have "\<dots> = result_core (record_loop 1 ?g ?rs ?s1)"
    by (rule core_record_loop) (rule core_start_locals)
  finally have rc: "result_core (record_loop b ?g ?rs ?sb) =
      result_core (record_loop 1 ?g ?rs ?s1)" .
  show "fst (convert_gbk_to_sqlite e gbk_path b w) = fst (convert_gbk_to_sqlite e gbk_path 1 w)"
    by (simp add: convert_result_core rc g)
  show "db (snd (convert_gbk_to_sqlite e gbk_path b w)) =
         db (snd (convert_gbk_to_sqlite e gbk_path 1 w))"
    unfolding convert_world g
    using rc
    by (auto simp add: result_core_def core_def split: sum.splits prod.splits option.splits
        intro: core_final_flush [unfolded core_def])
qed

lemma convert_calls_ok_nonpos:
  assumes "b \<le> 0"
  shows "calls_ok (length (effects w)) 1 (snd (convert_gbk_to_sqlite e gbk_path b w))"
proof -
  let ?n = "length (effects w)"
  let ?s0 = "snd (start_locals gbk_path b w)"
  have "calls_ok ?n 1 w" by (simp add: calls_ok_def)
  from calls_ok_append [OF start_locals_effects _ this]
  have c0: "calls_ok ?n 1 (the_world ?s0)" by simp
  have b0: "bounded 1 ?s0" by (simp add: bounded_def start_locals_buffers)
  have one: "(1::int) \<le> 1" by simp
  note rl = record_loop_bounded [OF one b0 c0, of "fst (start_locals gbk_path b w)"
      "fst (iter_gb_records e gbk_path)"]
  show ?thesis
    unfolding convert_world record_loop_nonpos [OF assms]
    using rl by (auto split: sum.splits option.splits intro: final_flush_calls_ok)
qed

lemma feature_loop_raises:
  "\<not> list_all (\<lambda>ftr. wf_location (location ftr)) fs \<Longrightarrow>
   \<exists>w1. feature_loop b g ro idx fs s = Inl (AttributeError, w1)"
proof (induction fs arbitrary: idx s)
  case Nil
  then show ?case by simp
next
  case (Cons ftr fs)
  show ?case
  proof (cases "wf_location (location ftr)")
    case False
    from location_fields_not_wf [OF False] show ?thesis by simp
  next
    case True
    from location_fields_wf [OF True, of idx ro "the_world s"] obtain w1 where
      l1: "location_fields idx ro ftr (the_world s) = Inr (loc_triple (location ftr), w1)"
      by blast
    from True Cons.prems have "\<not> list_all (\<lambda>ftr. wf_location (location ftr)) fs" by simp
    from Cons.IH [OF this] show ?thesis
      by (simp add: l1 Let_def)
  qed
qed

lemma record_loop_raises:
  "\<not> list_all wf_record rs \<Longrightarrow>
   \<exists>w1. record_loop b g rs s = Inl (AttributeError, w1)"
proof (induction rs arbitrary: s)
  case Nil
  then show ?case by simp
next
  case (Cons r rs)
  obtain ro w1 where rc:
    "Record_create g (rec_name r) (rec_definition r) (rec_accession r) (rec_version r)
       (the_world s) = (ro, w1)"
    by (cases "Record_create g (rec_name r) (rec_definition r) (rec_accession r) (rec_version r)
       (the_world s)") blast
  let ?s1 = "s\<lparr>the_world := w1, record_objs := record_objs s @ [ro]\<rparr>"
  show ?case
  proof (cases "wf_record r")
    case False
    then have "\<not> list_all (\<lambda>ftr. wf_location (location ftr)) (features r)"
      by (simp add: wf_record_def)
    from feature_loop_raises [OF this, of b g ro 0 ?s1] show ?thesis
      by (auto simp add: rc)
  next
    case True
    then have "list_all (\<lambda>ftr. wf_location (location ftr)) (features r)"
      by (simp add: wf_record_def)
    from feature_loop_view [OF this, of b g ro 0 ?s1] obtain s2 where
      fl: "feature_loop b g ro 0 (features r) ?s1 = Inr s2" by blast
    from True Cons.prems have "\<not> list_all wf_record rs" by simp
    from Cons.IH [OF this, of s2] show ?thesis
      by (simp add: rc fl)
  qed
qed

lemma convert_returns_iff:
  "fst (convert_gbk_to_sqlite e gbk_path b w) = None \<longleftrightarrow> well_formed_input e gbk_path"
proof
  assume "well_formed_input e gbk_path"
  from convert_flat [OF this, of b w]
  show "fst (convert_gbk_to_sqlite e gbk_path b w) = None" by simp
next
  assume ok: "fst (convert_gbk_to_sqlite e gbk_path b w) = None"
  obtain rs ending where it: "iter_gb_records e gbk_path = (rs, ending)"
    by (cases "iter_gb_records e gbk_path")
  have "ending = None"
    using ok convert_ending_error [of e gbk_path _ b w] it by (cases ending) auto
  moreover have "list_all wf_record rs"
  proof (rule ccontr)
    assume "\<not> list_all wf_record rs"
    from record_loop_raises [OF this, of b "fst (start_locals gbk_path b w)"
        "snd (start_locals gbk_path b w)"]
    have "fst (convert_gbk_to_sqlite e gbk_path b w) = Some AttributeError"
      by (auto simp add: convert_gbk_to_sqlite_def it split: prod.splits)
    with ok show False by simp
  qed
  ultimately show "well_formed_input e gbk_path"
    by (simp add: well_formed_input_def it)
qed

text \<open>
  Whatever the columns of the tables, a second invocation of \<^verbatim>\<open>create_indexes\<close> ends
  as the first did and leaves the database as the first left it; when the tables have
  the columns the four statements index, neither invocation raises and the four names
  are present afterwards.
\<close>

lemma create_indexes_idempotent:
  "fst (create_indexes sc (snd (create_indexes sc w))) = fst (create_indexes sc w)
   \<and> db (snd (create_indexes sc (snd (create_indexes sc w)))) = db (snd (create_indexes sc w))
   \<and> tables (db (snd (create_indexes sc w))) = tables (db w)
   \<and> (distinct (index_names (db w)) \<longrightarrow>
        distinct (index_names (db (snd (create_indexes sc w)))))
   \<and> (indexed_columns_exist sc \<longrightarrow>
        fst (create_indexes sc w) = None
        \<and> fst (create_indexes sc (snd (create_indexes sc w))) = None
        \<and> set [''idx_qualifier_feature'', ''idx_qualifier_feature_key'',
                ''idx_feature_record'', ''idx_record_genome'']
            \<subseteq> set (index_names (db (snd (create_indexes sc w)))))"
proof (cases "exec_all_db sc index_statements (db w)")
  case (Inl err)
  then have first: "fst (create_indexes sc w) = Some err" "db (snd (create_indexes sc w)) = db w"
    by (simp_all add: create_indexes_db)
  from Inl first(2) have second:
    "fst (create_indexes sc (snd (create_indexes sc w))) = Some err"
    "db (snd (create_indexes sc (snd (create_indexes sc w)))) = db w"
    by (simp_all add: create_indexes_db)
  from Inl exec_all_db_columns [OF index_statements_guarded, of sc "db w"]
  have "\<not> indexed_columns_exist sc"
    by (auto simp add: indexed_columns_exist_def)
  with first second show ?thesis by simp
next
  case (Inr d')
  then have first: "fst (create_indexes sc w) = None" "db (snd (create_indexes sc w)) = d'"
    by (simp_all add: create_indexes_db)
  note g = exec_all_db_grows [OF Inr]
  from g have "stmt_name ` set index_statements \<subseteq> set (index_names d')" by simp
  from exec_all_db_present [OF index_statements_guarded this, of sc]
  have again: "exec_all_db sc index_statements d' = Inr d'" .
  with first(2) have second:
    "fst (create_indexes sc (snd (create_indexes sc w))) = None"
    "db (snd (create_indexes sc (snd (create_indexes sc w)))) = d'"
    by (simp_all add: create_indexes_db)
  from g have "{''idx_qualifier_feature'', ''idx_qualifier_feature_key'',
                ''idx_feature_record'', ''idx_record_genome''} \<subseteq> set (index_names d')"
    unfolding index_statement_names by simp
  with first second g show ?thesis by simp
qed

section \<open>The claims\<close>

text \<open>
  C1. Batching is transparent to the output. On every input whose records parse
  successfully (the iteration ends normally, with well-formed records), the conversions
  with any two positive batch sizes both return normally and leave the same database:
  the same rows in the same order in every table, and the same identifier sequences.
  Both equal the database in which every row is written unbuffered.
\<close>

theorem batching_transparent:
  assumes "0 < b1" and "0 < b2" and "well_formed_input e gbk_path"
  shows "fst (convert_gbk_to_sqlite e gbk_path b1 w) = None
       \<and> fst (convert_gbk_to_sqlite e gbk_path b2 w) = None
       \<and> db (snd (convert_gbk_to_sqlite e gbk_path b1 w)) =
           db (snd (convert_gbk_to_sqlite e gbk_path b2 w))
       \<and> db (snd (convert_gbk_to_sqlite e gbk_path b1 w)) = flat_db e gbk_path (db w)"
  using convert_flat [OF assms(3), of b1 w] convert_flat [OF assms(3), of b2 w]
  by simp

theorem batching_transparent_witness:
  "(0::int) < 1 \<and> (0::int) < 5000 \<and> well_formed_input example_env ''x.gbk''
   \<and> fst (convert_gbk_to_sqlite example_env ''x.gbk'' 1 empty_world) = None
   \<and> fst (convert_gbk_to_sqlite example_env ''x.gbk'' 5000 empty_world) = None
   \<and> tables (db (snd (convert_gbk_to_sqlite example_env ''x.gbk'' 1 empty_world))) =
       tables (db (snd (convert_gbk_to_sqlite example_env ''x.gbk'' 5000 empty_world)))"
  using batching_transparent [of 1 5000 example_env "''x.gbk''" empty_world] example_well_formed
  by simp

text \<open>
  C2. For every record the parser yields, whatever the batch size and however the
  iteration ends afterwards: the record loop returns, and the feature rows it has
  emitted for the k-th record (written to the table or still waiting in the buffer, in
  that order) carry the feature indices 0, 1, ..., count - 1 in enumeration order,
  where count is the record's number of features and the record is the one whose
  Record row, the k-th added, has the identifier those feature rows carry. When the
  iteration ends normally these are the rows the conversion leaves in the feature
  table: no flush renumbers them.
\<close>

theorem feature_index_enumeration:
  assumes "list_all wf_record (fst (iter_gb_records e gbk_path))"
    and "k < length (fst (iter_gb_records e gbk_path))"
  shows "(\<exists>s1. record_loop b (fst (start_locals gbk_path b w)) (fst (iter_gb_records e gbk_path))
               (snd (start_locals gbk_path b w)) = Inr s1
           \<and> map (\<lambda>r. r ! 2)
                (filter (\<lambda>r. r ! 1 = PyInt (record_seq (db w) + 1 + int k))
                   (drop (length (tables (db w) ''feature'')) (fv s1))) =
               map (\<lambda>i. PyInt (int i))
                 [0 ..< length (features (fst (iter_gb_records e gbk_path) ! k))]
           \<and> drop (length (tables (db w) ''record''))
                (tables (db (the_world s1)) ''record'') ! k ! 0 =
               PyInt (record_seq (db w) + 1 + int k))
       \<and> (snd (iter_gb_records e gbk_path) = None \<longrightarrow>
            map (\<lambda>r. r ! 2)
              (filter (\<lambda>r. r ! 1 = PyInt (record_seq (db w) + 1 + int k))
                 (drop (length (tables (db w) ''feature''))
                    (tables (db (snd (convert_gbk_to_sqlite e gbk_path b w))) ''feature''))) =
            map (\<lambda>i. PyInt (int i))
              [0 ..< length (features (fst (iter_gb_records e gbk_path) ! k))])"
proof (intro conjI impI)
  let ?rs = "fst (iter_gb_records e gbk_path)"
  let ?g = "fst (start_locals gbk_path b w)"
  let ?s0 = "snd (start_locals gbk_path b w)"
  have st: "start_locals gbk_path b w = (?g, ?s0)" by simp
  note v0 = start_locals_view [OF st]
  have idx: "map (\<lambda>r. r ! Suc (Suc 0))
          (feature_rows (genome_seq (db w) + 1) (record_seq (db w) + 1 + int k) 0
             (features (?rs ! k))) =
        map (\<lambda>i. PyInt (int i)) [0 ..< length (features (?rs ! k))]"
    using feature_rows_index [of "genome_seq (db w) + 1" "record_seq (db w) + 1 + int k" 0]
    by simp
  from record_loop_view [OF assms(1), of b ?g ?s0] obtain s1 where
    rl: "record_loop b ?g ?rs ?s0 = Inr s1"
    and f1: "fv s1 = fv ?s0 @ all_feature_rows (genome_id ?g) (record_seq (db (the_world ?s0))) ?rs"
    and r1: "rest s1 = ref_records (genome_id ?g) ?rs (rest ?s0)"
    by blast
  have f1': "fv s1 = tables (db w) ''feature'' @
               all_feature_rows (genome_seq (db w) + 1) (record_seq (db w)) ?rs"
    using f1 by (simp add: v0)
  have "tables (rest s1) ''record'' = tables (db (the_world s1)) ''record''"
    by (simp add: rest_def)
  with r1 have t1: "tables (db (the_world s1)) ''record'' =
      tables (db w) ''record'' @ record_rows (genome_seq (db w) + 1) (record_seq (db w)) ?rs"
    by (simp add: ref_records_explicit v0)
  have "map (\<lambda>r. r ! 2)
          (filter (\<lambda>r. r ! 1 = PyInt (record_seq (db w) + 1 + int k))
             (drop (length (tables (db w) ''feature'')) (fv s1))) =
        map (\<lambda>i. PyInt (int i)) [0 ..< length (features (?rs ! k))]"
    unfolding f1' using assms(2) idx
    by (simp add: filter_all_feature_rows numeral_2_eq_2)
  moreover have "drop (length (tables (db w) ''record''))
                (tables (db (the_world s1)) ''record'') ! k ! 0 =
               PyInt (record_seq (db w) + 1 + int k)"
    unfolding t1 using assms(2) by (simp add: record_rows_nth)
  ultimately show "\<exists>s1. record_loop b ?g ?rs ?s0 = Inr s1
           \<and> map (\<lambda>r. r ! 2)
                (filter (\<lambda>r. r ! 1 = PyInt (record_seq (db w) + 1 + int k))
                   (drop (length (tables (db w) ''feature'')) (fv s1))) =
               map (\<lambda>i. PyInt (int i)) [0 ..< length (features (?rs ! k))]
           \<and> drop (length (tables (db w) ''record''))
                (tables (db (the_world s1)) ''record'') ! k ! 0 =
               PyInt (record_seq (db w) + 1 + int k)"
    using rl by blast
  assume "snd (iter_gb_records e gbk_path) = None"
  with assms(1) have wf: "well_formed_input e gbk_path"
    by (simp add: well_formed_input_def split_beta)
  from convert_flat [OF wf, of b w]
  have d: "db (snd (convert_gbk_to_sqlite e gbk_path b w)) = flat_db e gbk_path (db w)"
    by simp
  show "map (\<lambda>r. r ! 2)
              (filter (\<lambda>r. r ! 1 = PyInt (record_seq (db w) + 1 + int k))
                 (drop (length (tables (db w) ''feature''))
                    (tables (db (snd (convert_gbk_to_sqlite e gbk_path b w))) ''feature''))) =
            map (\<lambda>i. PyInt (int i)) [0 ..< length (features (?rs ! k))]"
    unfolding d flat_db_tables using assms(2) idx
    by (simp add: filter_all_feature_rows numeral_2_eq_2)
qed

theorem feature_index_enumeration_witness:
  "list_all wf_record (fst (iter_gb_records example_env ''x.gbk''))
   \<and> (0::nat) < length (fst (iter_gb_records example_env ''x.gbk''))
   \<and> snd (iter_gb_records example_env ''x.gbk'') = None
   \<and> map (\<lambda>r. r ! 2)
        (filter (\<lambda>r. r ! 1 = PyInt 1)
           (tables (db (snd (convert_gbk_to_sqlite example_env ''x.gbk'' 2 empty_world)))
              ''feature'')) = [PyInt 0, PyInt 1, PyInt 2]"
proof -
  have feats: "length (features record_A) = 3" by (simp add: record_A_def)
  have upt3: "[0 ..< 3] = [0, 1, 2::nat]" by (simp add: upt_rec)
  have wf: "list_all wf_record (fst (iter_gb_records example_env ''x.gbk''))"
    by (simp add: example_input example_wf_record_A example_wf_record_B)
  have k: "0 < length (fst (iter_gb_records example_env ''x.gbk''))"
    by (simp add: example_input)
  have n: "snd (iter_gb_records example_env ''x.gbk'') = None"
    by (simp add: example_input)
  note th = feature_index_enumeration [OF wf k, of 2 empty_world, THEN conjunct2, rule_format, OF n]
  from th show ?thesis
    using wf k n by (simp add: example_input empty_world_def feats upt3)
qed

text \<open>
  C5. End of input. When the iteration ends normally after the record loop has returned,
  the conversion returns what the final flush leaves. The final flush makes one bulk
  insert (one executemany, one commit) for each buffer that is non-empty, whatever its
  size, features first, and nothing for an empty one; the remaining rows go to the end
  of their table. A bulk insert of an empty list of tuples leaves the world as it is: no
  call, no transaction.
\<close>

theorem end_of_input_flush:
  assumes "start_locals gbk_path batch_size w = (genome, s0)"
    and "iter_gb_records e gbk_path = (rs, None)"
    and "record_loop batch_size genome rs s0 = Inr s1"
  shows "convert_gbk_to_sqlite e gbk_path batch_size w = (None, final_flush s1)
   \<and> effects (final_flush s1) =
       effects (the_world s1) @
       (if feature_tuples s1 = [] then []
        else [Executemany (insert_sql ''feature'' feature_columns) (feature_tuples s1), Commit]) @
       (if qualifier_tuples s1 = [] then []
        else [Executemany (insert_sql ''qualifier'' qualifier_columns) (qualifier_tuples s1),
              Commit])
   \<and> tables (db (final_flush s1)) =
       (tables (db (the_world s1)))
         (''feature'' := tables (db (the_world s1)) ''feature'' @ feature_tuples s1,
          ''qualifier'' := tables (db (the_world s1)) ''qualifier'' @ qualifier_tuples s1)
   \<and> bulk_insert_tuples [] table_name columns w0 = w0"
proof (intro conjI)
  show "convert_gbk_to_sqlite e gbk_path batch_size w = (None, final_flush s1)"
    by (simp add: convert_gbk_to_sqlite_def assms)
  show "effects (final_flush s1) =
       effects (the_world s1) @
       (if feature_tuples s1 = [] then []
        else [Executemany (insert_sql ''feature'' feature_columns) (feature_tuples s1), Commit]) @
       (if qualifier_tuples s1 = [] then []
        else [Executemany (insert_sql ''qualifier'' qualifier_columns) (qualifier_tuples s1),
              Commit])"
    by (simp add: final_flush_def Let_def bulk_insert_effects)
  show "tables (db (final_flush s1)) =
       (tables (db (the_world s1)))
         (''feature'' := tables (db (the_world s1)) ''feature'' @ feature_tuples s1,
          ''qualifier'' := tables (db (the_world s1)) ''qualifier'' @ qualifier_tuples s1)"
    by (auto simp add: final_flush_def Let_def bulk_insert_db)
  show "bulk_insert_tuples [] table_name columns w0 = w0"
    by (simp add: bulk_insert_tuples_def)
qed

theorem end_of_input_flush_witness:
  "\<exists>genome s0 s1.
     start_locals ''x.gbk'' 2 empty_world = (genome, s0)
   \<and> iter_gb_records example_env ''x.gbk'' = ([record_A, record_B], None)
   \<and> record_loop 2 genome [record_A, record_B] s0 = Inr s1
   \<and> convert_gbk_to_sqlite example_env ''x.gbk'' 2 empty_world = (None, final_flush s1)
   \<and> tables (db (final_flush s1)) =
       (tables (db (the_world s1)))
         (''feature'' := tables (db (the_world s1)) ''feature'' @ feature_tuples s1,
          ''qualifier'' := tables (db (the_world s1)) ''qualifier'' @ qualifier_tuples s1)
   \<and> bulk_insert_tuples [] ''feature'' feature_columns empty_world = empty_world"
proof -
  obtain genome s0 where a: "start_locals ''x.gbk'' 2 empty_world = (genome, s0)"
    by (cases "start_locals ''x.gbk'' 2 empty_world") blast
  from record_loop_view [OF example_wf_records, of 2 genome s0]
  obtain s1 where c: "record_loop 2 genome [record_A, record_B] s0 = Inr s1"
    by blast
  from end_of_input_flush [OF a example_input c, of "''feature''" feature_columns empty_world]
    a example_input c
  show ?thesis by blast
qed

text \<open>
  C6. The two-record scenario. On a well-formed input of two records, A with three
  features of which one has two qualifiers and two have none, B without features, the
  conversion with batch size 2 returns normally and adds exactly 2 qualifier rows, 3
  feature rows, 2 record rows and 1 genome row. When the record loop returns, before
  the final flush, the feature table has already received at least two of the three
  rows: the feature buffer was flushed in mid-stream.
\<close>

theorem two_record_scenario:
  assumes "well_formed_input e gbk_path"
    and "fst (iter_gb_records e gbk_path) = [ra, rb]"
    and "features ra = [f1, f2, f3]"
    and "features rb = []"
    and "map (\<lambda>ftr. length (qualifiers ftr)) [f1, f2, f3] \<in> {[2, 0, 0], [0, 2, 0], [0, 0, 2]}"
  shows "fst (convert_gbk_to_sqlite e gbk_path 2 w) = None
   \<and> length (tables (db (snd (convert_gbk_to_sqlite e gbk_path 2 w))) ''qualifier'') =
       length (tables (db w) ''qualifier'') + 2
   \<and> length (tables (db (snd (convert_gbk_to_sqlite e gbk_path 2 w))) ''feature'') =
       length (tables (db w) ''feature'') + 3
   \<and> length (tables (db (snd (convert_gbk_to_sqlite e gbk_path 2 w))) ''record'') =
       length (tables (db w) ''record'') + 2
   \<and> length (tables (db (snd (convert_gbk_to_sqlite e gbk_path 2 w))) ''genome'') =
       length (tables (db w) ''genome'') + 1
   \<and> (\<exists>s1. record_loop 2 (fst (start_locals gbk_path 2 w)) [ra, rb]
               (snd (start_locals gbk_path 2 w)) = Inr s1
           \<and> length (tables (db w) ''feature'') + 2
               \<le> length (tables (db (the_world s1)) ''feature''))"
proof -
  note cf = convert_flat [OF assms(1), of 2 w]
  from cf have d: "db (snd (convert_gbk_to_sqlite e gbk_path 2 w)) = flat_db e gbk_path (db w)"
    by simp
  from assms(5) have q: "sum_list (map (\<lambda>ftr. length (qualifiers ftr)) [f1, f2, f3]) = 2"
    by auto
  have counts:
    "length (tables (flat_db e gbk_path (db w)) ''qualifier'') =
       length (tables (db w) ''qualifier'') + 2"
    "length (tables (flat_db e gbk_path (db w)) ''feature'') =
       length (tables (db w) ''feature'') + 3"
    "length (tables (flat_db e gbk_path (db w)) ''record'') =
       length (tables (db w) ''record'') + 2"
    "length (tables (flat_db e gbk_path (db w)) ''genome'') =
       length (tables (db w) ''genome'') + 1"
    using q by (simp_all add: flat_db_tables assms(2,3,4))
  from assms(1,2) have wf: "list_all wf_record [ra, rb]"
    by (auto simp add: well_formed_input_def split: prod.splits)
  let ?s0 = "snd (start_locals gbk_path 2 w)"
  from record_loop_mid_stream [of 2 "[ra, rb]" ?s0 "fst (start_locals gbk_path 2 w)", OF _ wf]
  obtain s1 where
    rl: "record_loop 2 (fst (start_locals gbk_path 2 w)) [ra, rb] ?s0 = Inr s1"
    and lt: "int (length (tables (db (the_world ?s0)) ''feature''))
               + int (sum_list (map (\<lambda>r. length (features r)) [ra, rb])) - 2
             < int (length (tables (db (the_world s1)) ''feature''))"
    by (auto simp add: start_locals_buffers)
  from lt have "length (tables (db w) ''feature'') + 2
                  \<le> length (tables (db (the_world s1)) ''feature'')"
    by (simp add: start_locals_tables assms(3,4))
  with rl have mid: "\<exists>s1. record_loop 2 (fst (start_locals gbk_path 2 w)) [ra, rb] ?s0 = Inr s1
           \<and> length (tables (db w) ''feature'') + 2
               \<le> length (tables (db (the_world s1)) ''feature'')"
    by blast
  from cf counts mid show ?thesis
    unfolding d by simp
qed

theorem two_record_scenario_witness:
  "well_formed_input example_env ''x.gbk''
   \<and> fst (iter_gb_records example_env ''x.gbk'') = [record_A, record_B]
   \<and> map (\<lambda>ftr. length (qualifiers ftr)) (features record_A) = [2, 0, 0]
   \<and> features record_B = []
   \<and> fst (convert_gbk_to_sqlite example_env ''x.gbk'' 2 empty_world) = None
   \<and> map (\<lambda>t. length (tables (db (snd (convert_gbk_to_sqlite example_env ''x.gbk'' 2
           empty_world))) t)) [''qualifier'', ''feature'', ''record'', ''genome''] = [2, 3, 2, 1]
   \<and> (\<exists>s1. record_loop 2 (fst (start_locals ''x.gbk'' 2 empty_world)) [record_A, record_B]
               (snd (start_locals ''x.gbk'' 2 empty_world)) = Inr s1
           \<and> 2 \<le> length (tables (db (the_world s1)) ''feature''))"
proof -
  have fa: "features record_A = [feature_A0, feature_A1, feature_A2]"
    by (simp add: record_A_def)
  have fb: "features record_B = []" by (simp add: record_B_def)
  have qs: "map (\<lambda>ftr. length (qualifiers ftr)) [feature_A0, feature_A1, feature_A2] = [2, 0, 0]"
    by (simp add: feature_A0_def feature_A1_def feature_A2_def)
  have it: "fst (iter_gb_records example_env ''x.gbk'') = [record_A, record_B]"
    by (simp add: example_input)
  have mem: "map (\<lambda>ftr. length (qualifiers ftr)) [feature_A0, feature_A1, feature_A2]
               \<in> {[2, 0, 0], [0, 2, 0], [0, 0, 2]}"
    unfolding qs by simp
  have empty: "tables (db empty_world) t = []" for t
    by (simp add: empty_world_def)
  from two_record_scenario [OF example_well_formed it fa fb mem, of empty_world]
  show ?thesis
    using example_well_formed it fb qs
    by (simp del: record_loop.simps add: empty fa numeral_2_eq_2)
qed

text \<open>
  C8. The buffer-size invariant. For every batch size of at least one, right after an
  append-and-check step the buffer appended to holds fewer rows than the batch size,
  and the other buffer is as it was, so both stay below the batch size from the empty
  buffers the loop starts with. Every bulk insert the conversion makes, whether in the
  loop or at the end and whether or not the conversion then fails, is given at least
  one and at most batch-size row tuples.
\<close>

theorem buffers_stay_below_batch_size:
  assumes "1 \<le> batch_size"
  shows "int (length (feature_tuples (append_feature_tuple batch_size r s))) < batch_size
   \<and> qualifier_tuples (append_feature_tuple batch_size r s) = qualifier_tuples s
   \<and> int (length (qualifier_tuples (append_qualifier_tuple batch_size r s))) < batch_size
   \<and> feature_tuples (append_qualifier_tuple batch_size r s) = feature_tuples s
   \<and> bounded batch_size (snd (start_locals gbk_path batch_size w))
   \<and> (\<forall>sql vals.
         Executemany sql vals \<in> set (drop (length (effects w))
            (effects (snd (convert_gbk_to_sqlite e gbk_path batch_size w))))
         \<longrightarrow> vals \<noteq> [] \<and> int (length vals) \<le> batch_size)"
proof (intro conjI allI impI)
  show "int (length (feature_tuples (append_feature_tuple batch_size r s))) < batch_size"
    using assms by (simp add: append_feature_tuple_def Let_def)
  show "qualifier_tuples (append_feature_tuple batch_size r s) = qualifier_tuples s"
    by (simp add: append_feature_tuple_def Let_def)
  show "int (length (qualifier_tuples (append_qualifier_tuple batch_size r s))) < batch_size"
    using assms by (simp add: append_qualifier_tuple_def Let_def)
  show "feature_tuples (append_qualifier_tuple batch_size r s) = feature_tuples s"
    by (simp add: append_qualifier_tuple_def Let_def)
  show "bounded batch_size (snd (start_locals gbk_path batch_size w))"
    using assms by (simp add: bounded_def start_locals_buffers)
next
  fix sql vals
  assume "Executemany sql vals \<in> set (drop (length (effects w))
            (effects (snd (convert_gbk_to_sqlite e gbk_path batch_size w))))"
  with convert_calls_ok [OF assms, of w e gbk_path]
  have "call_ok batch_size (Executemany sql vals)"
    by (auto simp add: calls_ok_def list_all_iff)
  then show "vals \<noteq> []" and "int (length vals) \<le> batch_size" by simp_all
qed

theorem buffers_stay_below_batch_size_witness:
  "(1::int) \<le> 2
   \<and> bounded 2 (snd (start_locals ''x.gbk'' 2 empty_world))
   \<and> Executemany (insert_sql ''feature'' feature_columns)
         [[PyInt 1, PyInt 1, PyInt 0, PyInt 1, PyInt 9, PyStr ''+''],
          [PyInt 1, PyInt 1, PyInt 1, PyInt 3, PyNone, PyNone]]
       \<in> set (drop (length (effects empty_world))
                (effects (snd (convert_gbk_to_sqlite example_env ''x.gbk'' 2 empty_world))))
   \<and> int (length [[PyInt 1, PyInt 1, PyInt 0, PyInt 1, PyInt 9, PyStr ''+''],
                    [PyInt 1, PyInt 1, PyInt 1, PyInt 3, PyNone, PyNone]]) \<le> 2"
proof -
  have mem: "Executemany (insert_sql ''feature'' feature_columns)
         [[PyInt 1, PyInt 1, PyInt 0, PyInt 1, PyInt 9, PyStr ''+''],
          [PyInt 1, PyInt 1, PyInt 1, PyInt 3, PyNone, PyNone]]
       \<in> set (drop (length (effects empty_world))
                (effects (snd (convert_gbk_to_sqlite example_env ''x.gbk'' 2 empty_world))))"
    unfolding example_trace by (simp add: empty_world_def)
  from buffers_stay_below_batch_size [of 2 undefined undefined "''x.gbk''" empty_world example_env]
  have "bounded 2 (snd (start_locals ''x.gbk'' 2 empty_world))"
    and "\<forall>sql vals.
         Executemany sql vals \<in> set (drop (length (effects empty_world))
            (effects (snd (convert_gbk_to_sqlite example_env ''x.gbk'' 2 empty_world))))
         \<longrightarrow> vals \<noteq> [] \<and> int (length vals) \<le> 2"
    by simp_all
  with mem show ?thesis by simp
qed

text \<open>
  C3. The location fields of a feature. When the location has start, end and strand,
  these are the values taken, the strand through \<^verbatim>\<open>str\<close> unless it is \<^verbatim>\<open>None\<close>, and
  no warning is given. When the location has no strand, nothing is raised: exactly one
  warning is given, whose text carries the feature index and the record name, the
  strand is absent, start and end are each the attribute's value if the attribute is
  there and absent if not, and the Feature row appended for the feature ends with these
  three fields.
\<close>

theorem location_fields_cases:
  "(start_attr (location ftr) = Some s \<and> end_attr (location ftr) = Some e
      \<and> strand_attr (location ftr) = Some v \<longrightarrow>
      location_fields idx ro ftr w =
        Inr ((s, e, (if v = PyNone then PyNone else PyStr (py_str v))), w))
   \<and> (strand_attr (location ftr) = None \<longrightarrow>
        location_fields idx ro ftr w =
          Inr (((case start_attr (location ftr) of Some x \<Rightarrow> x | None \<Rightarrow> PyNone),
                (case end_attr (location ftr) of Some x \<Rightarrow> x | None \<Rightarrow> PyNone),
                PyNone),
               w\<lparr>effects := effects w @
                  [Warn (''Feature '' @ decimal idx @ '' of record '' @
                         py_str (ro_name ro) @ '' does not have strand attribute'')]\<rparr>)
        \<and> (\<exists>st'. feature_loop b g ro idx [ftr] st = Inr st'
              \<and> fv st' = fv st @
                  [[PyInt (genome_id g), PyInt (ro_id ro), PyInt (int idx),
                    (case start_attr (location ftr) of Some x \<Rightarrow> x | None \<Rightarrow> PyNone),
                    (case end_attr (location ftr) of Some x \<Rightarrow> x | None \<Rightarrow> PyNone),
                    PyNone]]))"
proof (intro conjI impI)
  assume "start_attr (location ftr) = Some s \<and> end_attr (location ftr) = Some e
      \<and> strand_attr (location ftr) = Some v"
  then show "location_fields idx ro ftr w =
        Inr ((s, e, (if v = PyNone then PyNone else PyStr (py_str v))), w)"
    by (simp add: location_fields_def)
next
  assume "strand_attr (location ftr) = None"
  then show "location_fields idx ro ftr w =
          Inr (((case start_attr (location ftr) of Some x \<Rightarrow> x | None \<Rightarrow> PyNone),
                (case end_attr (location ftr) of Some x \<Rightarrow> x | None \<Rightarrow> PyNone),
                PyNone),
               w\<lparr>effects := effects w @
                  [Warn (''Feature '' @ decimal idx @ '' of record '' @
                         py_str (ro_name ro) @ '' does not have strand attribute'')]\<rparr>)"
    by (simp add: location_fields_def warnings_warn_def emit_def)
next
  assume ns: "strand_attr (location ftr) = None"
  then have "list_all (\<lambda>ftr. wf_location (location ftr)) [ftr]"
    by (simp add: wf_location_def)
  from feature_loop_view [OF this, of b g ro idx st] obtain st' where
    "feature_loop b g ro idx [ftr] st = Inr st'"
    "fv st' = fv st @ feature_rows (genome_id g) (ro_id ro) idx [ftr]"
    by blast
  with ns show "\<exists>st'. feature_loop b g ro idx [ftr] st = Inr st'
              \<and> fv st' = fv st @
                  [[PyInt (genome_id g), PyInt (ro_id ro), PyInt (int idx),
                    (case start_attr (location ftr) of Some x \<Rightarrow> x | None \<Rightarrow> PyNone),
                    (case end_attr (location ftr) of Some x \<Rightarrow> x | None \<Rightarrow> PyNone),
                    PyNone]]"
    by (simp add: feature_row_def loc_triple_def)
qed

theorem location_fields_cases_witness:
  "start_attr (location feature_A0) = Some (PyInt 1) \<and> end_attr (location feature_A0) = Some (PyInt 9)
   \<and> strand_attr (location feature_A0) = Some (PyStr ''+'')
   \<and> location_fields 0 \<lparr>ro_id = 1, ro_genome = 1, ro_name = PyStr ''A'', ro_definition = PyNone,
          ro_accession = PyStr ''ACC1'', ro_version = PyNone\<rparr> feature_A0 empty_world =
       Inr ((PyInt 1, PyInt 9, PyStr ''+''), empty_world)
   \<and> strand_attr (location feature_A1) = None
   \<and> location_fields 1 \<lparr>ro_id = 1, ro_genome = 1, ro_name = PyStr ''A'', ro_definition = PyNone,
          ro_accession = PyStr ''ACC1'', ro_version = PyNone\<rparr> feature_A1 empty_world =
       Inr ((PyInt 3, PyNone, PyNone),
            empty_world\<lparr>effects :=
              [Warn ''Feature 1 of record A does not have strand attribute'']\<rparr>)"
proof -
  let ?ro = "\<lparr>ro_id = 1, ro_genome = 1, ro_name = PyStr ''A'', ro_definition = PyNone,
          ro_accession = PyStr ''ACC1'', ro_version = PyNone\<rparr>"
  have a: "start_attr (location feature_A0) = Some (PyInt 1)
      \<and> end_attr (location feature_A0) = Some (PyInt 9)
      \<and> strand_attr (location feature_A0) = Some (PyStr ''+'')"
    by (simp add: feature_A0_def)
  have b: "strand_attr (location feature_A1) = None" "start_attr (location feature_A1) = Some (PyInt 3)"
    "end_attr (location feature_A1) = None"
    by (simp_all add: feature_A1_def)
  have e: "effects empty_world = []" by (simp add: empty_world_def)
  have n: "decimal (Suc 0) = ''1''" by (simp add: decimal.simps digit_char_def)
  note th0 = location_fields_cases [of feature_A0 "PyInt 1" "PyInt 9" "PyStr ''+''" 0 ?ro
      empty_world, THEN conjunct1, rule_format, OF a]
  note th1 = location_fields_cases [of feature_A1 _ _ _ 1 ?ro empty_world, THEN conjunct2,
      rule_format, OF b(1), THEN conjunct1]
  from th0 th1 show ?thesis using a b by (simp add: e n)
qed

text \<open>
  C4. Append and check. For every positive batch size, appending a tuple to the feature
  buffer leaves the qualifier buffer, the qualifier table and every other table as they
  were. If the feature buffer with the new tuple has reached the batch size, exactly its
  rows, in buffer order, go to the feature table in one executemany followed by one
  commit, and the feature buffer is emptied; otherwise the tuple waits in the buffer and
  the world is untouched. The same holds with the two streams exchanged.
\<close>

theorem append_and_check:
  assumes "0 < batch_size"
  shows "(let s' = append_feature_tuple batch_size r s; buf = feature_tuples s @ [r] in
            qualifier_tuples s' = qualifier_tuples s
          \<and> (if batch_size \<le> int (length buf)
             then feature_tuples s' = []
                \<and> effects (the_world s') = effects (the_world s) @
                     [Executemany (insert_sql ''feature'' feature_columns) buf, Commit]
                \<and> tables (db (the_world s')) =
                     (tables (db (the_world s)))
                       (''feature'' := tables (db (the_world s)) ''feature'' @ buf)
             else feature_tuples s' = buf \<and> the_world s' = the_world s))
       \<and> (let s' = append_qualifier_tuple batch_size r s; buf = qualifier_tuples s @ [r] in
            feature_tuples s' = feature_tuples s
          \<and> (if batch_size \<le> int (length buf)
             then qualifier_tuples s' = []
                \<and> effects (the_world s') = effects (the_world s) @
                     [Executemany (insert_sql ''qualifier'' qualifier_columns) buf, Commit]
                \<and> tables (db (the_world s')) =
                     (tables (db (the_world s)))
                       (''qualifier'' := tables (db (the_world s)) ''qualifier'' @ buf)
             else qualifier_tuples s' = buf \<and> the_world s' = the_world s))"
  by (simp add: Let_def append_feature_tuple_def append_qualifier_tuple_def bulk_insert_db
      bulk_insert_effects)

theorem append_and_check_witness:
  "(0::int) < 2
   \<and> feature_tuples (append_feature_tuple 2 [PyInt 1, PyInt 1, PyInt 1, PyInt 3, PyNone, PyNone]
        one_waiting) = []
   \<and> qualifier_tuples (append_feature_tuple 2 [PyInt 1, PyInt 1, PyInt 1, PyInt 3, PyNone, PyNone]
        one_waiting) = []
   \<and> effects (the_world (append_feature_tuple 2
        [PyInt 1, PyInt 1, PyInt 1, PyInt 3, PyNone, PyNone] one_waiting)) =
       [Executemany (insert_sql ''feature'' feature_columns)
          [[PyInt 1, PyInt 1, PyInt 0, PyInt 1, PyInt 9, PyStr ''+''],
           [PyInt 1, PyInt 1, PyInt 1, PyInt 3, PyNone, PyNone]],
        Commit]
   \<and> qualifier_tuples (append_qualifier_tuple 2 [PyInt 1, PyInt 1, PyInt 0, PyStr ''gene'', PyNone]
        one_waiting) = [[PyInt 1, PyInt 1, PyInt 0, PyStr ''gene'', PyNone]]
   \<and> feature_tuples (append_qualifier_tuple 2 [PyInt 1, PyInt 1, PyInt 0, PyStr ''gene'', PyNone]
        one_waiting) = [[PyInt 1, PyInt 1, PyInt 0, PyInt 1, PyInt 9, PyStr ''+'']]
   \<and> the_world (append_qualifier_tuple 2 [PyInt 1, PyInt 1, PyInt 0, PyStr ''gene'', PyNone]
        one_waiting) = empty_world"
proof -
  have w: "the_world one_waiting = empty_world"
    "feature_tuples one_waiting = [[PyInt 1, PyInt 1, PyInt 0, PyInt 1, PyInt 9, PyStr ''+'']]"
    "qualifier_tuples one_waiting = []"
    by (simp_all add: one_waiting_def)
  have e: "effects empty_world = []" by (simp add: empty_world_def)
  from append_and_check [of 2 "[PyInt 1, PyInt 1, PyInt 1, PyInt 3, PyNone, PyNone]" one_waiting,
      THEN conjunct1]
    append_and_check [of 2 "[PyInt 1, PyInt 1, PyInt 0, PyStr ''gene'', PyNone]" one_waiting,
      THEN conjunct2]
  show ?thesis
    by (simp add: Let_def w e)
qed

text \<open>
  C9. The Genome row precedes any read. Whatever the input and however the conversion
  ends, the genome table it leaves is the one it found with the row for the path added
  at the end; among the effects of the conversion the insertion of that row comes right
  after the log line and right before the input is opened. When the iteration ends in
  an exception the conversion raises; when that happens before the first record, the
  exception is the one raised, and the database is the one found plus the Genome row.
\<close>

theorem genome_row_precedes_read:
  "tables (db (snd (convert_gbk_to_sqlite e gbk_path b w))) ''genome'' =
     tables (db w) ''genome'' @ [[PyInt (genome_seq (db w) + 1), PyStr gbk_path]]
   \<and> take 2 (drop (length (effects w) + 1)
               (effects (snd (convert_gbk_to_sqlite e gbk_path b w)))) =
       [OrmInsert ''genome'' [PyInt (genome_seq (db w) + 1), PyStr gbk_path],
        OpenInput gbk_path]
   \<and> (snd (iter_gb_records e gbk_path) \<noteq> None \<longrightarrow>
        fst (convert_gbk_to_sqlite e gbk_path b w) \<noteq> None)
   \<and> (iter_gb_records e gbk_path = ([], Some err) \<longrightarrow>
        fst (convert_gbk_to_sqlite e gbk_path b w) = Some err
        \<and> db (snd (convert_gbk_to_sqlite e gbk_path b w)) =
            (db w)\<lparr>tables := (tables (db w))(''genome'' := tables (db w) ''genome'' @
                       [[PyInt (genome_seq (db w) + 1), PyStr gbk_path]]),
                   genome_seq := genome_seq (db w) + 1\<rparr>)"
proof (intro conjI impI)
  show "tables (db (snd (convert_gbk_to_sqlite e gbk_path b w))) ''genome'' =
     tables (db w) ''genome'' @ [[PyInt (genome_seq (db w) + 1), PyStr gbk_path]]"
    using convert_frame [of e gbk_path b w] by blast
  from convert_frame [of e gbk_path b w] obtain es where
    "effects (snd (convert_gbk_to_sqlite e gbk_path b w)) =
         effects w @
         [LogInfo (''Converting '' @ gbk_path @ '' to SQLite database using batch size '' @
                   py_str_int b),
          OrmInsert ''genome'' [PyInt (genome_seq (db w) + 1), PyStr gbk_path],
          OpenInput gbk_path] @ es"
    by blast
  then show "take 2 (drop (length (effects w) + 1)
               (effects (snd (convert_gbk_to_sqlite e gbk_path b w)))) =
       [OrmInsert ''genome'' [PyInt (genome_seq (db w) + 1), PyStr gbk_path],
        OpenInput gbk_path]"
    by simp
next
  assume "snd (iter_gb_records e gbk_path) \<noteq> None"
  then show "fst (convert_gbk_to_sqlite e gbk_path b w) \<noteq> None"
    using convert_ending_error [of e gbk_path _ b w] by auto
next
  assume a: "iter_gb_records e gbk_path = ([], Some err)"
  show "fst (convert_gbk_to_sqlite e gbk_path b w) = Some err"
    by (simp add: convert_no_records [OF a])
  show "db (snd (convert_gbk_to_sqlite e gbk_path b w)) =
            (db w)\<lparr>tables := (tables (db w))(''genome'' := tables (db w) ''genome'' @
                       [[PyInt (genome_seq (db w) + 1), PyStr gbk_path]]),
                   genome_seq := genome_seq (db w) + 1\<rparr>"
    by (simp add: convert_no_records [OF a] start_locals_db)
qed

theorem genome_row_precedes_read_witness:
  "iter_gb_records (env_of ([], Some ParseError)) ''x.gbk'' = ([], Some ParseError)
   \<and> fst (convert_gbk_to_sqlite (env_of ([], Some ParseError)) ''x.gbk'' 5000 empty_world) =
       Some ParseError
   \<and> tables (db (snd (convert_gbk_to_sqlite (env_of ([], Some ParseError)) ''x.gbk'' 5000
        empty_world))) ''genome'' = [[PyInt 1, PyStr ''x.gbk'']]
   \<and> snd (iter_gb_records (env_of ([record_A], None)) ''x.gbk.gz'') = Some IOError
   \<and> fst (convert_gbk_to_sqlite (env_of ([record_A], None)) ''x.gbk.gz'' 5000 empty_world) =
       Some IOError
   \<and> tables (db (snd (convert_gbk_to_sqlite (env_of ([record_A], None)) ''x.gbk.gz'' 5000
        empty_world))) ''genome'' = [[PyInt 1, PyStr ''x.gbk.gz'']]"
proof -
  have e: "tables (db empty_world) ''genome'' = []" "genome_seq (db empty_world) = 0"
    by (simp_all add: empty_world_def)
  note th1 = genome_row_precedes_read [of "env_of ([], Some ParseError)" "''x.gbk''" 5000
      empty_world ParseError]
  note th2 = genome_row_precedes_read [of "env_of ([record_A], None)" "''x.gbk.gz''" 5000
      empty_world IOError]
  from th1 th2 show ?thesis
    by (simp add: iter_env_of_plain iter_env_of_gz e)
qed

text \<open>
  C10. A batch size of zero or less is tolerated. It makes every length check succeed:
  each append is followed at once by the bulk insert of the buffer, which is left empty,
  and every bulk insert of the conversion carries exactly one row. The conversion ends
  as it does with batch size 1, in particular without an exception on every well-formed
  input, and leaves the same database: the same rows in the same order in every table.
\<close>

theorem nonpositive_batch_size:
  assumes "batch_size \<le> 0"
  shows "fst (convert_gbk_to_sqlite e gbk_path batch_size w) =
           fst (convert_gbk_to_sqlite e gbk_path 1 w)
   \<and> db (snd (convert_gbk_to_sqlite e gbk_path batch_size w)) =
       db (snd (convert_gbk_to_sqlite e gbk_path 1 w))
   \<and> (well_formed_input e gbk_path \<longrightarrow>
        fst (convert_gbk_to_sqlite e gbk_path batch_size w) = None)
   \<and> feature_tuples (append_feature_tuple batch_size r s) = []
   \<and> effects (the_world (append_feature_tuple batch_size r s)) =
       effects (the_world s) @
       [Executemany (insert_sql ''feature'' feature_columns) (feature_tuples s @ [r]), Commit]
   \<and> qualifier_tuples (append_qualifier_tuple batch_size r s) = []
   \<and> effects (the_world (append_qualifier_tuple batch_size r s)) =
       effects (the_world s) @
       [Executemany (insert_sql ''qualifier'' qualifier_columns) (qualifier_tuples s @ [r]),
        Commit]
   \<and> (\<forall>sql vals.
         Executemany sql vals \<in> set (drop (length (effects w))
            (effects (snd (convert_gbk_to_sqlite e gbk_path batch_size w))))
         \<longrightarrow> length vals = 1)"
proof (intro conjI allI impI)
  show "fst (convert_gbk_to_sqlite e gbk_path batch_size w) =
           fst (convert_gbk_to_sqlite e gbk_path 1 w)"
    by (rule convert_nonpos [OF assms])
  show "db (snd (convert_gbk_to_sqlite e gbk_path batch_size w)) =
       db (snd (convert_gbk_to_sqlite e gbk_path 1 w))"
    by (rule convert_nonpos [OF assms])
  show "feature_tuples (append_feature_tuple batch_size r s) = []"
    using assms by (simp add: append_feature_tuple_proj)
  show "effects (the_world (append_feature_tuple batch_size r s)) =
       effects (the_world s) @
       [Executemany (insert_sql ''feature'' feature_columns) (feature_tuples s @ [r]), Commit]"
    using assms by (simp add: append_feature_tuple_proj)
  show "qualifier_tuples (append_qualifier_tuple batch_size r s) = []"
    using assms by (simp add: append_qualifier_tuple_proj)
  show "effects (the_world (append_qualifier_tuple batch_size r s)) =
       effects (the_world s) @
       [Executemany (insert_sql ''qualifier'' qualifier_columns) (qualifier_tuples s @ [r]),
        Commit]"
    using assms by (simp add: append_qualifier_tuple_proj)
next
  assume "well_formed_input e gbk_path"
  from convert_flat [OF this, of batch_size w]
  show "fst (convert_gbk_to_sqlite e gbk_path batch_size w) = None" by simp
next
  fix sql vals
  assume "Executemany sql vals \<in> set (drop (length (effects w))
            (effects (snd (convert_gbk_to_sqlite e gbk_path batch_size w))))"
  with convert_calls_ok_nonpos [OF assms, of w e gbk_path]
  have "call_ok 1 (Executemany sql vals)"
    by (auto simp add: calls_ok_def list_all_iff)
  then show "length vals = 1" by (cases vals) simp_all
qed

theorem nonpositive_batch_size_witness:
  "(- 3 :: int) \<le> 0
   \<and> well_formed_input example_env ''x.gbk''
   \<and> fst (convert_gbk_to_sqlite example_env ''x.gbk'' (- 3) empty_world) = None
   \<and> tables (db (snd (convert_gbk_to_sqlite example_env ''x.gbk'' (- 3) empty_world))) =
       tables (db (snd (convert_gbk_to_sqlite example_env ''x.gbk'' 1 empty_world)))
   \<and> feature_tuples (append_feature_tuple (- 3)
        [PyInt 1, PyInt 1, PyInt 1, PyInt 3, PyNone, PyNone] one_waiting) = []
   \<and> effects (the_world (append_feature_tuple (- 3)
        [PyInt 1, PyInt 1, PyInt 1, PyInt 3, PyNone, PyNone] one_waiting)) =
       [Executemany (insert_sql ''feature'' feature_columns)
          [[PyInt 1, PyInt 1, PyInt 0, PyInt 1, PyInt 9, PyStr ''+''],
           [PyInt 1, PyInt 1, PyInt 1, PyInt 3, PyNone, PyNone]],
        Commit]"
proof -
  have w: "the_world one_waiting = empty_world"
    "feature_tuples one_waiting = [[PyInt 1, PyInt 1, PyInt 0, PyInt 1, PyInt 9, PyStr ''+'']]"
    by (simp_all add: one_waiting_def)
  have e: "effects empty_world = []" by (simp add: empty_world_def)
  have neg: "(- 3 :: int) \<le> 0" by simp
  from nonpositive_batch_size [OF neg, of example_env "''x.gbk''" empty_world
      "[PyInt 1, PyInt 1, PyInt 1, PyInt 3, PyNone, PyNone]" one_waiting]
  have all: "fst (convert_gbk_to_sqlite example_env ''x.gbk'' (- 3) empty_world) = None"
    "db (snd (convert_gbk_to_sqlite example_env ''x.gbk'' (- 3) empty_world)) =
       db (snd (convert_gbk_to_sqlite example_env ''x.gbk'' 1 empty_world))"
    "feature_tuples (append_feature_tuple (- 3)
        [PyInt 1, PyInt 1, PyInt 1, PyInt 3, PyNone, PyNone] one_waiting) = []"
    "effects (the_world (append_feature_tuple (- 3)
        [PyInt 1, PyInt 1, PyInt 1, PyInt 3, PyNone, PyNone] one_waiting)) =
       effects (the_world one_waiting) @
       [Executemany (insert_sql ''feature'' feature_columns)
          (feature_tuples one_waiting @ [[PyInt 1, PyInt 1, PyInt 1, PyInt 3, PyNone, PyNone]]),
        Commit]"
    using example_well_formed by blast+
  then show ?thesis
    using example_well_formed by (simp add: w e)
qed

text \<open>
  C7. Index creation on the tables the conversion writes to. The first index statement
  names a column \<^verbatim>\<open>feature\<close> of the qualifier table. When the qualifier table has
  no column of that name, as when its columns are those the bulk insert of line 55
  writes through, and no index named \<^verbatim>\<open>idx_qualifier_feature\<close> exists yet,
  \<^verbatim>\<open>create_indexes\<close> raises a DatabaseError at that statement and leaves the database
  as it found it, without any of the four indexes, on the first invocation and on every
  repetition.
\<close>

theorem create_indexes_refused:
  assumes "''feature'' \<notin> set (sc ''qualifier'')"
    and "''idx_qualifier_feature'' \<notin> set (index_names (db w))"
  shows "fst (create_indexes sc w) = Some DatabaseError
       \<and> db (snd (create_indexes sc w)) = db w
       \<and> fst (create_indexes sc (snd (create_indexes sc w))) = Some DatabaseError
       \<and> db (snd (create_indexes sc (snd (create_indexes sc w)))) = db w"
proof -
  have run: "exec_all_db sc index_statements (db w) = Inl DatabaseError"
    using assms by (simp add: index_statements_def exec_db_def)
  then have first: "fst (create_indexes sc w) = Some DatabaseError"
    "db (snd (create_indexes sc w)) = db w"
    by (simp_all add: create_indexes_db)
  with run have "fst (create_indexes sc (snd (create_indexes sc w))) = Some DatabaseError"
    "db (snd (create_indexes sc (snd (create_indexes sc w)))) = db w"
    by (simp_all add: create_indexes_db)
  with first show ?thesis by simp
qed

theorem create_indexes_refused_witness:
  "''feature'' \<notin> set (tuple_schema ''qualifier'')
   \<and> ''idx_qualifier_feature'' \<notin> set (index_names (db empty_world))
   \<and> fst (create_indexes tuple_schema empty_world) = Some DatabaseError
   \<and> indexes (db (snd (create_indexes tuple_schema empty_world))) = []
   \<and> fst (create_indexes tuple_schema (snd (create_indexes tuple_schema empty_world))) =
       Some DatabaseError
   \<and> indexes (db (snd (create_indexes tuple_schema
        (snd (create_indexes tuple_schema empty_world))))) = []"
proof -
  have a: "''feature'' \<notin> set (tuple_schema ''qualifier'')"
    by (simp add: tuple_schema_def qualifier_columns_def)
  have b: "''idx_qualifier_feature'' \<notin> set (index_names (db empty_world))"
    by (simp add: index_names_def empty_world_def)
  have e: "indexes (db empty_world) = []" by (simp add: empty_world_def)
  from create_indexes_refused [of tuple_schema empty_world, OF a b] show ?thesis
    using a b by (simp add: e)
qed

end
